theory Spec2Isabelle
  imports Complex_Main
begin

section \<open>The Resilience Pilot: a shallow embedding of \<^verbatim>\<open>src/app/main.py\<close>\<close>

text \<open>
  The service is one module: three metric families, a start time, the chaos toggle, an
  instrumentation middleware, four endpoint handlers and \<^verbatim>\<open>format_uptime\<close>.
  Module-level globals become fields of one state record that every operation takes and
  returns. The two sources of nondeterminism, \<^verbatim>\<open>time.time()\<close> and
  \<^verbatim>\<open>random.random()\<close>, are read from a per-request environment, so that a
  statement quantified over environments covers every clock reading and every draw.
\<close>

subsection \<open>Python floats\<close>

text \<open>
  A float is a finite value, an infinity or NaN; a finite value is the real number it
  denotes. Comparison, \<^verbatim>\<open>min\<close> and \<^verbatim>\<open>max\<close> do not round.
  Every comparison with NaN is false. The builtins \<^verbatim>\<open>max(a, b)\<close> and
  \<^verbatim>\<open>min(a, b)\<close> keep their first argument unless the second is strictly
  greater (smaller). The differences of clock readings (elapsed time, request duration)
  are taken as exact.
\<close>

datatype pyfloat = Fin real | PInf | NInf | NaN

fun float_lt :: "pyfloat \<Rightarrow> pyfloat \<Rightarrow> bool" where
  "float_lt NaN b = False"
| "float_lt a NaN = False"
| "float_lt (Fin a) (Fin b) = (a < b)"
| "float_lt (Fin a) PInf = True"
| "float_lt (Fin a) NInf = False"
| "float_lt NInf NInf = False"
| "float_lt NInf b = True"
| "float_lt PInf b = False"

definition py_max :: "pyfloat \<Rightarrow> pyfloat \<Rightarrow> pyfloat" where
  "py_max a b = (if float_lt a b then b else a)"

definition py_min :: "pyfloat \<Rightarrow> pyfloat \<Rightarrow> pyfloat" where
  "py_min a b = (if float_lt b a then b else a)"

text \<open>
  Float arithmetic rounds its exact result to the nearest double, a tie going to the even
  significand. \<open>float_exponent x\<close> is the \<open>e\<close> with \<open>2^e \<le> |x| < 2^(e+1)\<close>;
  doubles around \<open>x\<close> are \<open>2^(e-52)\<close> apart, and \<open>2^(-1074)\<close> apart in the
  subnormal range. Overflow to infinity is left out: every result rounded below is
  bounded in magnitude by an operand or by 100.
\<close>

function log2_floor :: "int \<Rightarrow> int" where
  "log2_floor n = (if n < 2 then 0 else 1 + log2_floor (n div 2))"
  by pat_completeness auto
termination
  by (relation "measure nat") auto

definition float_exponent :: "real \<Rightarrow> int" where
  "float_exponent x =
     (let a = \<bar>x\<bar>
      in if 1 \<le> a then log2_floor \<lfloor>a\<rfloor>
         else - (1 + log2_floor (\<lceil>1 / a\<rceil> - 1)))"

definition pow2 :: "int \<Rightarrow> real" where
  "pow2 k = (if 0 \<le> k then 2 ^ nat k else 1 / 2 ^ nat (- k))"

definition round_half_even :: "real \<Rightarrow> int" where
  "round_half_even y =
     (let f = \<lfloor>y\<rfloor>; r = y - of_int f
      in if r < 1 / 2 then f else if 1 / 2 < r then f + 1 else if even f then f else f + 1)"

definition round_double :: "real \<Rightarrow> real" where
  "round_double x =
     (if x = 0 then 0
      else (let u = pow2 (max (float_exponent x) (- 1022) - 52)
            in of_int (round_half_even (x / u)) * u))"

text \<open>
  The product of line 224; its argument is the stored probability.
\<close>

fun float_times100 :: "pyfloat \<Rightarrow> pyfloat" where
  "float_times100 (Fin a) = Fin (round_double (a * 100))"
| "float_times100 PInf = PInf"
| "float_times100 NInf = NInf"
| "float_times100 NaN = NaN"

text \<open>
  Float floor division \<^verbatim>\<open>x // y\<close> and remainder \<^verbatim>\<open>x % y\<close> on finite
  values with \<open>y \<noteq> 0\<close>, step by step as the interpreter computes them. The C
  function \<^verbatim>\<open>fmod\<close> is exact and its result has the sign of \<open>x\<close>. The quotient
  is \<^verbatim>\<open>(x - mod) / y\<close>, where the difference and the division each round; when
  the remainder is nonzero and differs in sign from \<open>y\<close>, the remainder is increased by
  \<open>y\<close> and the quotient decreased by one, both rounding; last, a nonzero quotient is
  snapped to the integral value below it, or above it when more than one half away (the
  fractional part of a double and the successor of a double with a fractional part are
  exact). Signed zeros are not told apart. The divisors of the source are the literals
  86400, 3600 and 60, so no division by zero can be raised. \<^verbatim>\<open>int(x)\<close> truncates
  towards zero.
\<close>

definition c_fmod :: "real \<Rightarrow> real \<Rightarrow> real" where
  "c_fmod x y = x - y * of_int (if x / y < 0 then \<lceil>x / y\<rceil> else \<lfloor>x / y\<rfloor>)"

definition py_floordiv :: "real \<Rightarrow> real \<Rightarrow> real" where
  "py_floordiv x y =
     (let m = c_fmod x y;
          d0 = round_double (round_double (x - m) / y);
          d1 = (if m \<noteq> 0 \<and> ((y < 0) \<noteq> (m < 0)) then round_double (d0 - 1) else d0)
      in if d1 \<noteq> 0 then
           (let f = of_int \<lfloor>d1\<rfloor> in if 1 / 2 < d1 - f then f + 1 else f)
         else 0)"

definition py_mod :: "real \<Rightarrow> real \<Rightarrow> real" where
  "py_mod x y =
     (let m = c_fmod x y
      in if m \<noteq> 0 then (if (y < 0) \<noteq> (m < 0) then round_double (m + y) else m) else 0)"

definition py_int :: "real \<Rightarrow> int" where
  "py_int x = (if x < 0 then \<lceil>x\<rceil> else \<lfloor>x\<rfloor>)"

text \<open>
  \<^verbatim>\<open>round(x, 2)\<close>: the nearest multiple of one hundredth, a tie going to the
  even hundredth.
\<close>

definition py_round2 :: "real \<Rightarrow> real" where
  "py_round2 x = of_int (round_half_even (x * 100)) / 100"

subsection \<open>Rendering integers: \<^verbatim>\<open>str(int)\<close> inside an f-string\<close>

definition digit_char :: "nat \<Rightarrow> char" where
  "digit_char k = char_of (48 + k)"

fun str_nat :: "nat \<Rightarrow> string" where
  "str_nat n = (if n < 10 then [digit_char n] else str_nat (n div 10) @ [digit_char (n mod 10)])"

definition py_str :: "int \<Rightarrow> string" where
  "py_str i = (if i < 0 then CHR ''-'' # str_nat (nat (- i)) else str_nat (nat i))"

subsection \<open>\<^verbatim>\<open>format_uptime\<close> (lines 247-261)\<close>

text \<open>
  The argument is a finite float: the only caller passes the difference of two clock
  readings. The components are computed in float arithmetic and truncated.
\<close>

definition format_uptime :: "real \<Rightarrow> string" where
  "format_uptime seconds =
     (let days = py_int (py_floordiv seconds 86400);
          hours = py_int (py_floordiv (py_mod seconds 86400) 3600);
          minutes = py_int (py_floordiv (py_mod seconds 3600) 60);
          secs = py_int (py_mod seconds 60)
      in if days > 0 then
           py_str days @ ''d '' @ py_str hours @ ''h '' @ py_str minutes @ ''m '' @ py_str secs @ ''s''
         else if hours > 0 then
           py_str hours @ ''h '' @ py_str minutes @ ''m '' @ py_str secs @ ''s''
         else if minutes > 0 then
           py_str minutes @ ''m '' @ py_str secs @ ''s''
         else
           py_str secs @ ''s'')"

subsection \<open>Reading a rendered uptime back\<close>

text \<open>
  The specification speaks of re-parsing the rendered components. The reader below is
  that parser: the string is cut at spaces, and each piece must be a non-empty run of
  decimal digits followed by one unit character. \<open>uptime_breakdown\<close> is the integer
  day/hour/minute/second breakdown of a duration as the specification words it, on whole
  seconds; \<open>reconstruct\<close> reads the four units out of the parsed components, a unit
  that was not rendered counting as zero.
\<close>

definition digit_val :: "char \<Rightarrow> nat option" where
  "digit_val c = (let k = (of_char c :: nat) in if 48 \<le> k \<and> k < 58 then Some (k - 48) else None)"

fun parse_digits :: "nat \<Rightarrow> string \<Rightarrow> nat option" where
  "parse_digits acc [] = Some acc"
| "parse_digits acc (c # cs) =
     (case digit_val c of None \<Rightarrow> None | Some v \<Rightarrow> parse_digits (10 * acc + v) cs)"

definition parse_nat :: "string \<Rightarrow> nat option" where
  "parse_nat s = (if s = [] then None else parse_digits 0 s)"

fun split_spaces :: "string \<Rightarrow> string \<Rightarrow> string list" where
  "split_spaces cur [] = [cur]"
| "split_spaces cur (c # cs) =
     (if c = CHR '' '' then cur # split_spaces [] cs else split_spaces (cur @ [c]) cs)"

definition parse_component :: "string \<Rightarrow> (int \<times> char) option" where
  "parse_component tok =
     (case rev tok of
        [] \<Rightarrow> None
      | u # ds \<Rightarrow> (case parse_nat (rev ds) of None \<Rightarrow> None | Some n \<Rightarrow> Some (int n, u)))"

definition parse_uptime :: "string \<Rightarrow> (int \<times> char) list option" where
  "parse_uptime s = those (map parse_component (split_spaces [] s))"

definition uptime_breakdown :: "real \<Rightarrow> int \<times> int \<times> int \<times> int" where
  "uptime_breakdown d =
     (let n = \<lfloor>d\<rfloor> in (n div 86400, n mod 86400 div 3600, n mod 3600 div 60, n mod 60))"

definition component :: "char \<Rightarrow> (int \<times> char) list \<Rightarrow> int" where
  "component u comps = (case map_of (map prod.swap comps) u of None \<Rightarrow> 0 | Some v \<Rightarrow> v)"

definition reconstruct :: "(int \<times> char) list \<Rightarrow> int \<times> int \<times> int \<times> int" where
  "reconstruct comps =
     (component CHR ''d'' comps, component CHR ''h'' comps,
      component CHR ''m'' comps, component CHR ''s'' comps)"

subsection \<open>Values, responses and faults\<close>

text \<open>
  Handler results are Python values; \<open>Template pre x post\<close> stands for the f-string
  \<^verbatim>\<open>f"{pre}{x}{post}"\<close> with a float \<open>x\<close>, whose decimal rendering is left
  symbolic. The body of \<^verbatim>\<open>/metrics\<close> is the exposition of the three metric
  families as they stand when it is generated.
\<close>

datatype pyval =
    Str string
  | Float pyfloat
  | Bool bool
  | Dict "(string \<times> pyval) list"
  | Template string pyfloat string

type_synonym count_key = "string \<times> string \<times> nat"
type_synonym latency_key = "string \<times> string"

datatype body =
    JsonBody pyval
  | Exposition "count_key \<Rightarrow> nat" "latency_key \<Rightarrow> real list" real

record response =
  status_code :: nat
  content :: body

text \<open>
  What a handler can raise is a \<open>fault\<close>, an instance of \<^verbatim>\<open>Exception\<close>:
  FastAPI's \<^verbatim>\<open>HTTPException\<close> with its status code and detail, or anything else.
  \<open>Interrupt\<close> is a \<^verbatim>\<open>BaseException\<close> outside \<^verbatim>\<open>Exception\<close>
  (task cancellation, interpreter exit), which the middleware's
  \<^verbatim>\<open>except Exception\<close> clause does not catch.
\<close>

datatype fault = HTTPException nat string | OtherException string

datatype raised = Fault fault | Interrupt string

datatype outcome = Returned response | Raised raised

datatype reply = ReturnDict pyval | ReturnResponse response

subsection \<open>Module state (lines 36-67)\<close>

text \<open>
  A labelled counter is a function from label triples to the number of
  \<^verbatim>\<open>inc()\<close> calls made on that child; a labelled histogram keeps, per label
  pair, the durations observed so far, oldest first (bucket counts, sum and count of the
  exposition are functions of that list).
\<close>

record chaos_mode =
  enabled :: bool
  probability :: pyfloat

record app_state =
  REQUEST_COUNT :: "count_key \<Rightarrow> nat"
  REQUEST_LATENCY :: "latency_key \<Rightarrow> real list"
  UPTIME_GAUGE :: real
  START_TIME :: real
  CHAOS_MODE :: chaos_mode

definition startup :: "real \<Rightarrow> app_state" where
  "startup t0 =
     \<lparr>REQUEST_COUNT = (\<lambda>k. 0), REQUEST_LATENCY = (\<lambda>k. []), UPTIME_GAUGE = 0,
      START_TIME = t0, CHAOS_MODE = \<lparr>enabled = False, probability = Fin 0\<rparr>\<rparr>"

definition counter_inc :: "count_key \<Rightarrow> app_state \<Rightarrow> app_state" where
  "counter_inc k s = s\<lparr>REQUEST_COUNT := (REQUEST_COUNT s)(k := REQUEST_COUNT s k + 1)\<rparr>"

definition histogram_observe :: "latency_key \<Rightarrow> real \<Rightarrow> app_state \<Rightarrow> app_state" where
  "histogram_observe k v s = s\<lparr>REQUEST_LATENCY := (REQUEST_LATENCY s)(k := REQUEST_LATENCY s k @ [v])\<rparr>"

subsection \<open>Requests and their environment\<close>

text \<open>
  The four routes. The query parameters of \<^verbatim>\<open>POST /simulate-crash\<close> are
  optional: \<open>None\<close> is a parameter the request does not carry.
\<close>

datatype request =
    GetRoot
  | GetHealth
  | GetMetrics
  | PostSimulateCrash "string option" "pyfloat option"

fun http_method :: "request \<Rightarrow> string" where
  "http_method (PostSimulateCrash m p) = ''POST''"
| "http_method r = ''GET''"

fun url_path :: "request \<Rightarrow> string" where
  "url_path GetRoot = ''/''"
| "url_path GetHealth = ''/health''"
| "url_path GetMetrics = ''/metrics''"
| "url_path (PostSimulateCrash m p) = ''/simulate-crash''"

text \<open>
  What one request reads from outside: the clock at line 96 (\<open>t_start\<close>), in the
  handler at line 142 or 178 (\<open>t_handler\<close>) and at line 105 (\<open>t_end\<close>), and
  the value \<^verbatim>\<open>random.random()\<close> returns at line 146 if it is called
  (\<open>draw\<close>).
\<close>

record env =
  t_start :: real
  t_handler :: real
  t_end :: real
  draw :: real

subsection \<open>Endpoint handlers (lines 116-240)\<close>

definition root_handler :: "app_state \<Rightarrow> app_state \<times> (fault + reply)" where
  "root_handler s =
     (s, Inr (ReturnDict (Dict
        [(''application'', Str ''The Resilience Pilot''),
         (''version'', Str ''1.0.0''),
         (''endpoints'', Dict
            [(''health'', Str ''/health''),
             (''metrics'', Str ''/metrics''),
             (''chaos'', Str ''/simulate-crash'')])])))"

text \<open>The condition of line 146; the draw is read only when chaos is enabled.\<close>

definition should_fail :: "chaos_mode \<Rightarrow> real \<Rightarrow> bool" where
  "should_fail c u = (enabled c \<and> float_lt (Fin u) (probability c))"

definition health_check :: "env \<Rightarrow> app_state \<Rightarrow> app_state \<times> (fault + reply)" where
  "health_check e s =
     (let uptime = t_handler e - START_TIME s;
          s1 = s\<lparr>UPTIME_GAUGE := uptime\<rparr>
      in if should_fail (CHAOS_MODE s1) (draw e) then
           (counter_inc (''GET'', ''/health'', 503) s1,
            Inl (HTTPException 503 ''Service degraded (chaos mode active)''))
         else
           (s1, Inr (ReturnResponse
              \<lparr>status_code = 200,
               content = JsonBody (Dict
                 [(''status'', Str ''healthy''),
                  (''uptime'', Float (Fin (py_round2 uptime))),
                  (''uptime_formatted'', Str (format_uptime uptime)),
                  (''chaos_mode'', Bool (enabled (CHAOS_MODE s1)))])\<rparr>)))"

definition metrics :: "env \<Rightarrow> app_state \<Rightarrow> app_state \<times> (fault + reply)" where
  "metrics e s =
     (let s1 = s\<lparr>UPTIME_GAUGE := t_handler e - START_TIME s\<rparr>
      in (s1, Inr (ReturnResponse
            \<lparr>status_code = 200,
             content = Exposition (REQUEST_COUNT s1) (REQUEST_LATENCY s1) (UPTIME_GAUGE s1)\<rparr>)))"

text \<open>
  The detail of the immediate crash, byte for byte as the source file holds it: nine
  bytes of UTF-8 before the ASCII text.
\<close>

definition chaos_detail :: string where
  "chaos_detail =
     [CHR 0xC3, CHR 0xB0, CHR 0xC5, CHR 0xB8, CHR 0xE2, CHR 0x80, CHR 0x99, CHR 0xC2, CHR 0xA5]
     @ '' Chaos injected! This is an intentional crash for testing.''"

definition unknown_mode_detail :: "string \<Rightarrow> string" where
  "unknown_mode_detail mode =
     ''Unknown mode: '' @ mode @ ''. Use '' @ [CHR 0x27] @ ''immediate'' @ [CHR 0x27] @ '', ''
       @ [CHR 0x27] @ ''degraded'' @ [CHR 0x27] @ '', or '' @ [CHR 0x27] @ ''reset'' @ [CHR 0x27]"

definition simulate_crash :: "string \<Rightarrow> pyfloat \<Rightarrow> app_state \<Rightarrow> app_state \<times> (fault + reply)" where
  "simulate_crash mode prob s =
     (if mode = ''immediate'' then
        (counter_inc (''POST'', ''/simulate-crash'', 500) s, Inl (HTTPException 500 chaos_detail))
      else if mode = ''degraded'' then
        (let s1 = s\<lparr>CHAOS_MODE := (CHAOS_MODE s)\<lparr>enabled := True\<rparr>\<rparr>;
             s2 = s1\<lparr>CHAOS_MODE := (CHAOS_MODE s1)\<lparr>probability := py_min (py_max prob (Fin 0)) (Fin 1)\<rparr>\<rparr>
         in (s2, Inr (ReturnDict (Dict
               [(''status'', Str ''chaos_enabled''),
                (''mode'', Str ''degraded''),
                (''failure_probability'', Float (probability (CHAOS_MODE s2))),
                (''message'', Template ''Health endpoint will fail ''
                   (float_times100 (probability (CHAOS_MODE s2))) ''% of the time'')]))))
      else if mode = ''reset'' then
        (let s1 = s\<lparr>CHAOS_MODE := (CHAOS_MODE s)\<lparr>enabled := False\<rparr>\<rparr>;
             s2 = s1\<lparr>CHAOS_MODE := (CHAOS_MODE s1)\<lparr>probability := Fin 0\<rparr>\<rparr>
         in (s2, Inr (ReturnDict (Dict
               [(''status'', Str ''chaos_disabled''),
                (''message'', Str ''Service restored to healthy state'')]))))
      else
        (s, Inl (HTTPException 400 (unknown_mode_detail mode))))"

subsection \<open>The framework between middleware and handlers\<close>

text \<open>
  Modelled from the spec: FastAPI's routing and exception layer, which is not part of the
  repository. A request is routed by method and path to its handler, a query parameter
  the request does not carry takes the default of the handler's signature (line 188:
  \<^verbatim>\<open>mode = "immediate"\<close>, line 189: \<^verbatim>\<open>probability = 1.0\<close>), a returned
  dictionary becomes a 200 JSON response, and a fault signalled through the standard
  mechanism becomes a response with the fault's status code and the envelope
  \<^verbatim>\<open>{"detail": message}\<close>. Any other fault propagates to the middleware.
  A response carries the Python value that is its content; the encoding of that value
  into bytes is not modelled.
\<close>

definition dispatch :: "env \<Rightarrow> request \<Rightarrow> app_state \<Rightarrow> app_state \<times> (fault + reply)" where
  "dispatch e r s =
     (case r of
        GetRoot \<Rightarrow> root_handler s
      | GetHealth \<Rightarrow> health_check e s
      | GetMetrics \<Rightarrow> metrics e s
      | PostSimulateCrash m p \<Rightarrow>
          simulate_crash (case m of None \<Rightarrow> ''immediate'' | Some mode \<Rightarrow> mode)
            (case p of None \<Rightarrow> Fin 1 | Some prob \<Rightarrow> prob) s)"

definition inner_app :: "env \<Rightarrow> request \<Rightarrow> app_state \<Rightarrow> app_state \<times> outcome" where
  "inner_app e r s =
     (case dispatch e r s of
        (s1, Inr (ReturnDict v)) \<Rightarrow> (s1, Returned \<lparr>status_code = 200, content = JsonBody v\<rparr>)
      | (s1, Inr (ReturnResponse resp)) \<Rightarrow> (s1, Returned resp)
      | (s1, Inl (HTTPException code detail)) \<Rightarrow>
          (s1, Returned \<lparr>status_code = code, content = JsonBody (Dict [(''detail'', Str detail)])\<rparr>)
      | (s1, Inl (OtherException x)) \<Rightarrow> (s1, Raised (Fault (OtherException x))))"

subsection \<open>The instrumentation middleware (lines 90-109)\<close>

text \<open>
  \<open>record_request\<close> is the \<^verbatim>\<open>finally\<close> block. The middleware takes the rest of
  the stack as its parameter \<open>call_next\<close>, as the source does. When it raises an
  \<^verbatim>\<open>Exception\<close>, the status is set to 500 and the same exception is raised again
  after the \<^verbatim>\<open>finally\<close> block. When it raises anything else, \<^verbatim>\<open>status\<close>
  was never bound, so the \<^verbatim>\<open>finally\<close> block itself fails before it records.
\<close>

definition record_request :: "string \<Rightarrow> string \<Rightarrow> nat \<Rightarrow> real \<Rightarrow> app_state \<Rightarrow> app_state" where
  "record_request method endpoint status duration s =
     histogram_observe (method, endpoint) duration (counter_inc (method, endpoint, status) s)"

definition instrument_requests ::
  "env \<Rightarrow> request \<Rightarrow> (request \<Rightarrow> app_state \<Rightarrow> app_state \<times> outcome) \<Rightarrow> app_state
     \<Rightarrow> app_state \<times> outcome" where
  "instrument_requests e r call_next s =
     (let method = http_method r;
          endpoint = url_path r;
          start = t_start e
      in case call_next r s of
           (s1, Returned resp) \<Rightarrow>
             (record_request method endpoint (status_code resp) (t_end e - start) s1, Returned resp)
         | (s1, Raised (Fault ex)) \<Rightarrow>
             (record_request method endpoint 500 (t_end e - start) s1, Raised (Fault ex))
         | (s1, Raised (Interrupt x)) \<Rightarrow>
             (s1, Raised (Fault (OtherException ''UnboundLocalError''))))"

text \<open>One request through the application, and a sequence of requests in order.\<close>

definition serve :: "env \<Rightarrow> request \<Rightarrow> app_state \<Rightarrow> app_state \<times> outcome" where
  "serve e r s = instrument_requests e r (inner_app e) s"

fun run :: "(env \<times> request) list \<Rightarrow> app_state \<Rightarrow> app_state \<times> outcome list" where
  "run [] s = (s, [])"
| "run ((e, r) # rest) s =
     (case serve e r s of
        (s1, out) \<Rightarrow> (case run rest s1 of (s2, outs) \<Rightarrow> (s2, out # outs)))"

text \<open>
  Vocabulary of the claims: the mode a chaos request selects, whether a request is a
  degraded-mode write, whether it writes the chaos state at all, whether the handler of
  a request increments the request counter itself (lines 147 and 210), the clamp of the
  specification, and membership of the unit interval.
\<close>

definition selected_mode :: "request \<Rightarrow> string option" where
  "selected_mode r =
     (case r of
        PostSimulateCrash m p \<Rightarrow> Some (case m of None \<Rightarrow> ''immediate'' | Some mode \<Rightarrow> mode)
      | _ \<Rightarrow> None)"

definition is_degraded :: "request \<Rightarrow> bool" where
  "is_degraded r = (selected_mode r = Some ''degraded'')"

definition writes_chaos :: "request \<Rightarrow> bool" where
  "writes_chaos r = (selected_mode r = Some ''degraded'' \<or> selected_mode r = Some ''reset'')"

definition handler_counts :: "env \<Rightarrow> request \<Rightarrow> app_state \<Rightarrow> bool" where
  "handler_counts e r s =
     ((r = GetHealth \<and> should_fail (CHAOS_MODE s) (draw e)) \<or> selected_mode r = Some ''immediate'')"

definition clamp01 :: "pyfloat \<Rightarrow> pyfloat" where
  "clamp01 p = (if float_lt p (Fin 0) then Fin 0 else if float_lt (Fin 1) p then Fin 1 else p)"

definition in_unit_interval :: "pyfloat \<Rightarrow> bool" where
  "in_unit_interval p = (case p of Fin a \<Rightarrow> 0 \<le> a \<and> a \<le> 1 | _ \<Rightarrow> False)"

section \<open>Uptime formatting\<close>

declare str_nat.simps [simp del]

lemma digit_val_digit_char: "k < 10 \<Longrightarrow> digit_val (digit_char k) = Some k"
  by (simp add: digit_val_def digit_char_def Let_def)

lemma digit_char_not_space: "k < 10 \<Longrightarrow> digit_char k \<noteq> CHR '' ''"
proof
  assume "k < 10" and "digit_char k = CHR '' ''"
  then have "digit_val (CHR '' '') = Some k"
    using digit_val_digit_char by metis
  then show False
    by (simp add: digit_val_def)
qed

lemma parse_digits_snoc:
  "parse_digits acc (cs @ [c]) =
     (case parse_digits acc cs of
        None \<Rightarrow> None
      | Some a \<Rightarrow> (case digit_val c of None \<Rightarrow> None | Some v \<Rightarrow> Some (10 * a + v)))"
  by (induction cs arbitrary: acc) (auto split: option.splits)

lemma str_nat_nonempty: "str_nat n \<noteq> []"
  by (subst str_nat.simps) simp

lemma parse_digits_str_nat: "parse_digits 0 (str_nat n) = Some n"
proof (induction n rule: str_nat.induct)
  case (1 n)
  show ?case
  proof (cases "n < 10")
    case True
    then show ?thesis
      by (subst str_nat.simps) (simp add: digit_val_digit_char)
  next
    case False
    then have "parse_digits 0 (str_nat (n div 10)) = Some (n div 10)"
      using "1.IH" by simp
    with False show ?thesis
      by (subst str_nat.simps) (simp add: parse_digits_snoc digit_val_digit_char)
  qed
qed

lemma str_nat_no_space: "CHR '' '' \<notin> set (str_nat n)"
proof (induction n rule: str_nat.induct)
  case (1 n)
  show ?case
  proof (cases "n < 10")
    case True
    then show ?thesis
      using digit_char_not_space [of n] by (subst str_nat.simps) auto
  next
    case False
    then have "CHR '' '' \<notin> set (str_nat (n div 10))"
      using "1.IH" by simp
    moreover have "digit_char (n mod 10) \<noteq> CHR '' ''"
      by (rule digit_char_not_space) simp
    ultimately show ?thesis
      using False by (subst str_nat.simps) auto
  qed
qed

lemma parse_nat_str_nat: "parse_nat (str_nat n) = Some n"
  by (simp add: parse_nat_def str_nat_nonempty parse_digits_str_nat)

lemma parse_component_render: "parse_component (str_nat n @ [u]) = Some (int n, u)"
  by (simp add: parse_component_def parse_nat_str_nat)

lemma split_spaces_no_space:
  "CHR '' '' \<notin> set t \<Longrightarrow> split_spaces cur t = [cur @ t]"
  by (induction t arbitrary: cur) auto

lemma split_spaces_token:
  "CHR '' '' \<notin> set t \<Longrightarrow> split_spaces cur (t @ CHR '' '' # rest) = (cur @ t) # split_spaces [] rest"
  by (induction t arbitrary: cur) auto


declare log2_floor.simps [simp del]

lemma py_int_of_int: "py_int (of_int k) = k"
  by (simp add: py_int_def)

lemma floor_div_const:
  assumes "0 < y"
  shows "\<lfloor>(x::real) / of_int y\<rfloor> = \<lfloor>x\<rfloor> div y"
  using assms floor_divide_real_eq_div [of y x] by simp

text \<open>Doubles represent every integer below \<open>2^53\<close>: rounding leaves it as it is.\<close>

lemma log2_floor_bounds:
  assumes "1 \<le> n"
  shows "\<exists>k::nat. log2_floor n = int k \<and> 2 ^ k \<le> n \<and> n < 2 ^ Suc k"
  using assms
proof (induction n rule: log2_floor.induct)
  case (1 n)
  show ?case
  proof (cases "n < 2")
    case True
    with "1.prems" have "n = 1" by simp
    then have "log2_floor n = int 0 \<and> 2 ^ 0 \<le> n \<and> n < 2 ^ Suc 0"
      by (simp add: log2_floor.simps)
    then show ?thesis by blast
  next
    case False
    then have "1 \<le> n div 2" by simp
    with "1.IH" [OF False] obtain k :: nat
      where k: "log2_floor (n div 2) = int k" "2 ^ k \<le> n div 2" "n div 2 < 2 ^ Suc k"
      by blast
    have "log2_floor n = int (Suc k)"
      using False k(1) by (subst log2_floor.simps) simp
    moreover have "2 ^ Suc k \<le> n"
      using k(2) by simp
    moreover have "n < 2 ^ Suc (Suc k)"
      using k(3) by simp
    ultimately show ?thesis by blast
  qed
qed

lemma pow2_nonpos: "k \<le> 0 \<Longrightarrow> pow2 k = 1 / 2 ^ nat (- k)"
  by (auto simp: pow2_def)

lemma round_half_even_of_int: "round_half_even (of_int m) = m"
  by (simp add: round_half_even_def)

lemma round_double_of_int:
  assumes "0 \<le> n" and "n < 2 ^ 53"
  shows "round_double (of_int n) = of_int n"
proof (cases "n = 0")
  case True
  then show ?thesis by (simp add: round_double_def)
next
  case False
  with assms(1) have pos: "1 \<le> n" by simp
  then obtain k :: nat where k: "log2_floor n = int k" "2 ^ k \<le> n" "n < 2 ^ Suc k"
    using log2_floor_bounds by blast
  have "(2::int) ^ k < 2 ^ 53"
    using k(2) assms(2) by linarith
  then have small: "k < 53"
    by (rule power_less_imp_less_exp [rotated]) simp
  have expo: "float_exponent (of_int n) = int k"
    using pos k(1) by (simp add: float_exponent_def)
  define j where "j = 52 - k"
  have "max (int k) (- 1022) - 52 = - int j"
    using small by (simp add: j_def)
  then have unit: "pow2 (max (float_exponent (of_int n)) (- 1022) - 52) = 1 / 2 ^ j"
    by (simp add: expo pow2_nonpos)
  have "of_int n / (1 / 2 ^ j) = (of_int (n * 2 ^ j) :: real)"
    by simp
  then have "round_half_even (of_int n / (1 / 2 ^ j)) = n * 2 ^ j"
    by (simp only: round_half_even_of_int)
  then show ?thesis
    using False by (simp add: round_double_def unit Let_def)
qed

text \<open>
  For a non-negative dividend and the positive integer divisors of the source, the
  remainder is exact, and so is the quotient while the dividend is below \<open>2^53\<close>.
\<close>

lemma multiple_below:
  assumes "0 \<le> x" and "0 < y"
  shows "0 \<le> \<lfloor>x\<rfloor> div y" and "0 \<le> y * (\<lfloor>x\<rfloor> div y)" and "y * (\<lfloor>x\<rfloor> div y) \<le> \<lfloor>x\<rfloor>"
    and "\<lfloor>x\<rfloor> div y \<le> \<lfloor>x\<rfloor>"
proof -
  have fl: "0 \<le> \<lfloor>x\<rfloor>"
    using assms(1) by simp
  show q: "0 \<le> \<lfloor>x\<rfloor> div y"
    using fl assms(2) by (simp add: pos_imp_zdiv_nonneg_iff)
  show "0 \<le> y * (\<lfloor>x\<rfloor> div y)"
    using q assms(2) by simp
  have "y * (\<lfloor>x\<rfloor> div y) + \<lfloor>x\<rfloor> mod y = \<lfloor>x\<rfloor>"
    by simp
  moreover have "0 \<le> \<lfloor>x\<rfloor> mod y"
    using assms(2) by simp
  ultimately show "y * (\<lfloor>x\<rfloor> div y) \<le> \<lfloor>x\<rfloor>"
    by linarith
  moreover have "1 * (\<lfloor>x\<rfloor> div y) \<le> y * (\<lfloor>x\<rfloor> div y)"
    using q assms(2) by (intro mult_right_mono) simp_all
  ultimately show "\<lfloor>x\<rfloor> div y \<le> \<lfloor>x\<rfloor>"
    by linarith
qed

lemma c_fmod_of_int:
  assumes "0 \<le> x" and "0 < y"
  shows "c_fmod x (of_int y) = x - of_int (y * (\<lfloor>x\<rfloor> div y))"
proof -
  have "\<not> x / of_int y < 0"
    using assms by (simp add: not_less)
  then show ?thesis
    using assms(2) by (simp add: c_fmod_def floor_div_const)
qed

lemma c_fmod_nonneg:
  assumes "0 \<le> x" and "0 < y"
  shows "0 \<le> c_fmod x (of_int y)"
proof -
  have "(of_int (y * (\<lfloor>x\<rfloor> div y)) :: real) \<le> of_int \<lfloor>x\<rfloor>"
    using multiple_below(3) [OF assms] by (simp only: of_int_le_iff)
  also have "\<dots> \<le> x"
    by simp
  finally show ?thesis
    by (simp add: c_fmod_of_int [OF assms])
qed

lemma py_mod_of_int:
  assumes "0 \<le> x" and "0 < y"
  shows "py_mod x (of_int y) = x - of_int (y * (\<lfloor>x\<rfloor> div y))"
proof -
  have "\<not> c_fmod x (of_int y) < 0"
    using c_fmod_nonneg [OF assms] by simp
  moreover have "\<not> (of_int y :: real) < 0"
    using assms(2) by simp
  ultimately have "py_mod x (of_int y) = c_fmod x (of_int y)"
    by (simp add: py_mod_def Let_def)
  then show ?thesis
    by (simp only: c_fmod_of_int [OF assms])
qed

lemma py_floordiv_of_int:
  assumes "0 \<le> x" and "x < 2 ^ 53" and "0 < y"
  shows "py_floordiv x (of_int y) = of_int (\<lfloor>x\<rfloor> div y)"
proof -
  define q where "q = \<lfloor>x\<rfloor> div y"
  define m where "m = c_fmod x (of_int y)"
  have fl: "\<lfloor>x\<rfloor> < 2 ^ 53"
    using assms(2) by (simp add: floor_less_iff)
  have m: "m = x - of_int (y * q)"
    unfolding m_def q_def by (rule c_fmod_of_int [OF assms(1,3)])
  have signs: "\<not> m < 0" "\<not> (of_int y :: real) < 0"
    using c_fmod_nonneg [OF assms(1,3)] assms(3) by (simp_all add: m_def)
  have "0 \<le> y * q" and "y * q < 2 ^ 53"
    using multiple_below(2,3) [OF assms(1,3)] fl unfolding q_def by linarith+
  then have "round_double (of_int (y * q)) = of_int (y * q)"
    by (rule round_double_of_int)
  moreover have "x - m = of_int (y * q)"
    unfolding m by simp
  ultimately have "round_double (x - m) = of_int (y * q)"
    by (simp only:)
  then have "round_double (x - m) / of_int y = of_int q"
    using assms(3) by simp
  moreover have "0 \<le> q" and "q < 2 ^ 53"
    using multiple_below(1,4) [OF assms(1,3)] fl unfolding q_def by linarith+
  then have "round_double (of_int q) = of_int q"
    by (rule round_double_of_int)
  ultimately have d0: "round_double (round_double (x - m) / of_int y) = of_int q"
    by simp
  have "py_floordiv x (of_int y) = of_int q"
    using signs by (simp add: py_floordiv_def m_def [symmetric] d0 Let_def)
  then show ?thesis
    by (simp only: q_def)
qed

lemma floor_py_mod:
  assumes "0 \<le> x" and "0 < y"
  shows "\<lfloor>py_mod x (of_int y)\<rfloor> = \<lfloor>x\<rfloor> mod y"
proof -
  have "\<lfloor>py_mod x (of_int y)\<rfloor> = \<lfloor>x\<rfloor> - y * (\<lfloor>x\<rfloor> div y)"
    unfolding py_mod_of_int [OF assms] by (rule floor_diff_of_int)
  then show ?thesis
    by (simp add: minus_mult_div_eq_mod)
qed

lemma py_mod_bounds:
  assumes "0 \<le> x" and "0 < y"
  shows "0 \<le> py_mod x (of_int y)" and "py_mod x (of_int y) < of_int y"
proof -
  have "0 \<le> \<lfloor>x\<rfloor> mod y" and "\<lfloor>x\<rfloor> mod y < y"
    using assms(2) by simp_all
  then have "0 \<le> \<lfloor>py_mod x (of_int y)\<rfloor>" and "\<lfloor>py_mod x (of_int y)\<rfloor> < y"
    by (simp_all add: floor_py_mod [OF assms])
  then show "0 \<le> py_mod x (of_int y)" and "py_mod x (of_int y) < of_int y"
    by (simp_all add: floor_less_iff)
qed

lemma source_days:
  assumes "0 \<le> d" and "d < 2 ^ 53"
  shows "py_int (py_floordiv d 86400) = \<lfloor>d\<rfloor> div 86400"
  using py_floordiv_of_int [OF assms, of 86400] by (simp add: py_int_of_int)

lemma source_hours:
  assumes "0 \<le> d"
  shows "py_int (py_floordiv (py_mod d 86400) 3600) = \<lfloor>d\<rfloor> mod 86400 div 3600"
proof -
  have "0 \<le> py_mod d 86400" and "py_mod d 86400 < 86400"
    using py_mod_bounds [OF assms, of 86400] by simp_all
  then have "py_floordiv (py_mod d 86400) 3600 = of_int (\<lfloor>py_mod d 86400\<rfloor> div 3600)"
    using py_floordiv_of_int [of "py_mod d 86400" 3600] by simp
  then show ?thesis
    using floor_py_mod [OF assms, of 86400] by (simp add: py_int_of_int)
qed

lemma source_minutes:
  assumes "0 \<le> d"
  shows "py_int (py_floordiv (py_mod d 3600) 60) = \<lfloor>d\<rfloor> mod 3600 div 60"
proof -
  have "0 \<le> py_mod d 3600" and "py_mod d 3600 < 3600"
    using py_mod_bounds [OF assms, of 3600] by simp_all
  then have "py_floordiv (py_mod d 3600) 60 = of_int (\<lfloor>py_mod d 3600\<rfloor> div 60)"
    using py_floordiv_of_int [of "py_mod d 3600" 60] by simp
  then show ?thesis
    using floor_py_mod [OF assms, of 3600] by (simp add: py_int_of_int)
qed

lemma source_secs:
  assumes "0 \<le> d"
  shows "py_int (py_mod d 60) = \<lfloor>d\<rfloor> mod 60"
  using py_mod_bounds(1) [OF assms, of 60] floor_py_mod [OF assms, of 60]
  by (simp add: py_int_def)

lemma py_str_nonneg: "0 \<le> i \<Longrightarrow> py_str i = str_nat (nat i)"
  by (simp add: py_str_def)

lemma parse_one:
  "0 \<le> a \<Longrightarrow> u \<noteq> CHR '' '' \<Longrightarrow> parse_uptime (py_str a @ [u]) = Some [(a, u)]"
  by (simp add: parse_uptime_def py_str_nonneg split_spaces_no_space str_nat_no_space
      parse_component_render)

lemma parse_more:
  assumes "0 \<le> a" and "parse_uptime rest = Some comps" and "u \<noteq> CHR '' ''"
  shows "parse_uptime (py_str a @ u # CHR '' '' # rest) = Some ((a, u) # comps)"
proof -
  have "CHR '' '' \<notin> set (str_nat (nat a) @ [u])"
    using assms(3) str_nat_no_space by auto
  then have "split_spaces [] ((str_nat (nat a) @ [u]) @ CHR '' '' # rest)
      = (str_nat (nat a) @ [u]) # split_spaces [] rest"
    using split_spaces_token [of "str_nat (nat a) @ [u]" "[]" rest] by simp
  then show ?thesis
    using assms(1,2) by (simp add: parse_uptime_def py_str_nonneg parse_component_render)
qed

lemma breakdown_nonneg:
  assumes "0 \<le> d"
  shows "0 \<le> \<lfloor>d\<rfloor> div 86400" "0 \<le> \<lfloor>d\<rfloor> mod 86400 div 3600"
    "0 \<le> \<lfloor>d\<rfloor> mod 3600 div 60" "0 \<le> \<lfloor>d\<rfloor> mod 60"
  using assms by (simp_all add: pos_imp_zdiv_nonneg_iff)

lemma parse_s: "0 \<le> S \<Longrightarrow> parse_uptime (py_str S @ ''s'') = Some [(S, CHR ''s'')]"
  by (rule parse_one) simp_all

lemma parse_ms:
  "0 \<le> M \<Longrightarrow> 0 \<le> S \<Longrightarrow>
   parse_uptime (py_str M @ ''m '' @ py_str S @ ''s'') = Some [(M, CHR ''m''), (S, CHR ''s'')]"
  using parse_more [of M "py_str S @ ''s''" "[(S, CHR ''s'')]" "CHR ''m''"] parse_s [of S]
  by simp

lemma parse_hms:
  "0 \<le> H \<Longrightarrow> 0 \<le> M \<Longrightarrow> 0 \<le> S \<Longrightarrow>
   parse_uptime (py_str H @ ''h '' @ py_str M @ ''m '' @ py_str S @ ''s'')
     = Some [(H, CHR ''h''), (M, CHR ''m''), (S, CHR ''s'')]"
  using parse_more [of H "py_str M @ ''m '' @ py_str S @ ''s''" _ "CHR ''h''"] parse_ms [of M S]
  by simp

lemma parse_dhms:
  "0 \<le> D \<Longrightarrow> 0 \<le> H \<Longrightarrow> 0 \<le> M \<Longrightarrow> 0 \<le> S \<Longrightarrow>
   parse_uptime (py_str D @ ''d '' @ py_str H @ ''h '' @ py_str M @ ''m '' @ py_str S @ ''s'')
     = Some [(D, CHR ''d''), (H, CHR ''h''), (M, CHR ''m''), (S, CHR ''s'')]"
  using parse_more [of D "py_str H @ ''h '' @ py_str M @ ''m '' @ py_str S @ ''s''" _ "CHR ''d''"]
    parse_hms [of H M S]
  by simp

lemma format_uptime_breakdown:
  assumes "0 \<le> d" and "d < 2 ^ 53" and "uptime_breakdown d = (D, H, M, S)"
  shows "format_uptime d =
     (if D > 0 then py_str D @ ''d '' @ py_str H @ ''h '' @ py_str M @ ''m '' @ py_str S @ ''s''
      else if H > 0 then py_str H @ ''h '' @ py_str M @ ''m '' @ py_str S @ ''s''
      else if M > 0 then py_str M @ ''m '' @ py_str S @ ''s''
      else py_str S @ ''s'')"
  using assms(3)
  by (simp add: format_uptime_def uptime_breakdown_def Let_def
      source_days [OF assms(1,2)] source_hours [OF assms(1)] source_minutes [OF assms(1)]
      source_secs [OF assms(1)])

lemma format_uptime_parsed:
  assumes "0 \<le> D" "0 \<le> H" "0 \<le> M" "0 \<le> S"
  shows "parse_uptime
       (if D \<noteq> 0 then py_str D @ ''d '' @ py_str H @ ''h '' @ py_str M @ ''m '' @ py_str S @ ''s''
        else if H \<noteq> 0 then py_str H @ ''h '' @ py_str M @ ''m '' @ py_str S @ ''s''
        else if M \<noteq> 0 then py_str M @ ''m '' @ py_str S @ ''s''
        else py_str S @ ''s'') =
       Some (if D \<noteq> 0 then [(D, CHR ''d''), (H, CHR ''h''), (M, CHR ''m''), (S, CHR ''s'')]
             else if H \<noteq> 0 then [(H, CHR ''h''), (M, CHR ''m''), (S, CHR ''s'')]
             else if M \<noteq> 0 then [(M, CHR ''m''), (S, CHR ''s'')]
             else [(S, CHR ''s'')])"
proof -
  consider (d) "D \<noteq> 0" | (h) "D = 0" "H \<noteq> 0" | (m) "D = 0" "H = 0" "M \<noteq> 0"
    | (s) "D = 0" "H = 0" "M = 0"
    by blast
  then show ?thesis
  proof cases
    case d
    then show ?thesis
      by (simp only: simp_thms if_True parse_dhms [OF assms])
  next
    case h
    then show ?thesis
      by (simp only: simp_thms if_True if_False parse_hms [OF assms(2,3,4)])
  next
    case m
    then show ?thesis
      by (simp only: simp_thms if_True if_False parse_ms [OF assms(3,4)])
  next
    case s
    then show ?thesis
      by (simp only: simp_thms if_False parse_s [OF assms(4)])
  qed
qed

lemma breakdown_sum:
  fixes n :: int
  shows "n div 86400 * 86400 + n mod 86400 div 3600 * 3600 + n mod 3600 div 60 * 60 + n mod 60 = n"
proof -
  have a: "n mod 3600 mod 60 = n mod 60" and b: "n mod 86400 mod 3600 = n mod 3600"
    by (simp_all add: mod_mod_cancel)
  have "n div 86400 * 86400 + n mod 86400 div 3600 * 3600 + n mod 3600 div 60 * 60 + n mod 60
      = n div 86400 * 86400
        + (n mod 86400 div 3600 * 3600 + (n mod 3600 div 60 * 60 + n mod 3600 mod 60))"
    by (simp only: a add.assoc)
  also have "\<dots> = n div 86400 * 86400 + (n mod 86400 div 3600 * 3600 + n mod 86400 mod 3600)"
    by (simp only: div_mult_mod_eq b)
  also have "\<dots> = n"
    by (simp only: div_mult_mod_eq)
  finally show ?thesis .
qed

lemma breakdown_bounds:
  fixes n :: int
  shows "n mod 86400 div 3600 < 24" "n mod 3600 div 60 < 60" "n mod 60 < 60"
proof -
  have "n mod 86400 \<le> 86399"
    using pos_mod_bound [of 86400 n] by simp
  then have "n mod 86400 div 3600 \<le> 86399 div 3600"
    by (rule zdiv_mono1) simp
  then show "n mod 86400 div 3600 < 24"
    by simp
  have "n mod 3600 \<le> 3599"
    using pos_mod_bound [of 3600 n] by simp
  then have "n mod 3600 div 60 \<le> 3599 div 60"
    by (rule zdiv_mono1) simp
  then show "n mod 3600 div 60 < 60"
    by simp
  show "n mod 60 < 60"
    by simp
qed

text \<open>
  At \<open>10^22\<close> seconds, which is a double, the quotient by 86400 is above \<open>2^53\<close>
  and is rounded to a multiple of 16: the day count computed is 115740740740740736, four
  less than the whole days of the duration.
\<close>

lemma large_components:
  "py_int (py_floordiv (10 ^ 22) 86400) = 115740740740740736"
  "py_int (py_floordiv (py_mod (10 ^ 22) 86400) 3600) = 17"
  "py_int (py_floordiv (py_mod (10 ^ 22) 3600) 60) = 46"
  "py_int (py_mod (10 ^ 22) 60) = 40"
  by code_simp+

lemma large_format:
  "format_uptime (10 ^ 22) =
     py_str 115740740740740736 @ ''d '' @ py_str 17 @ ''h '' @ py_str 46 @ ''m '' @ py_str 40 @ ''s''"
  unfolding format_uptime_def Let_def large_components by simp

lemma digit_chars:
  "digit_char 0 = CHR ''0''" "digit_char 1 = CHR ''1''" "digit_char 2 = CHR ''2''"
  "digit_char 3 = CHR ''3''" "digit_char 4 = CHR ''4''" "digit_char 5 = CHR ''5''"
  "digit_char 6 = CHR ''6''" "digit_char 7 = CHR ''7''" "digit_char 8 = CHR ''8''"
  "digit_char 9 = CHR ''9''" "digit_char (Suc 0) = CHR ''1''"
  by code_simp+

lemma large_rendered: "format_uptime (10 ^ 22) = ''115740740740740736d 17h 46m 40s''"
  unfolding large_format by (simp add: py_str_def str_nat.simps digit_chars)

lemma large_parsed:
  "parse_uptime (format_uptime (10 ^ 22)) =
     Some [(115740740740740736, CHR ''d''), (17, CHR ''h''), (46, CHR ''m''), (40, CHR ''s'')]"
  unfolding large_format by (rule parse_dhms) simp_all

text \<open>
  Claim C3. As stated, for every duration \<open>d \<ge> 0\<close>, the claim fails: the components
  are computed in float arithmetic, and at \<open>10^22\<close> seconds the rendered day count is
  not the day count of the integer breakdown, so parsing the rendered string does not
  reconstruct it.
\<close>

theorem format_uptime_large_counterexample:
  "(0::real) \<le> 10 ^ 22
   \<and> format_uptime (10 ^ 22) = ''115740740740740736d 17h 46m 40s''
   \<and> uptime_breakdown (10 ^ 22) = (115740740740740740, 17, 46, 40)
   \<and> map_option reconstruct (parse_uptime (format_uptime (10 ^ 22)))
       = Some (115740740740740736, 17, 46, 40)
   \<and> map_option reconstruct (parse_uptime (format_uptime (10 ^ 22)))
       \<noteq> Some (uptime_breakdown (10 ^ 22))"
proof -
  have b: "uptime_breakdown (10 ^ 22) = (115740740740740740, 17, 46, 40)"
    by (simp add: uptime_breakdown_def)
  have r: "map_option reconstruct (parse_uptime (format_uptime (10 ^ 22)))
       = Some (115740740740740736, 17, 46, 40)"
    unfolding large_parsed by (simp add: reconstruct_def component_def)
  have "map_option reconstruct (parse_uptime (format_uptime (10 ^ 22)))
       \<noteq> Some (uptime_breakdown (10 ^ 22))"
    unfolding r b by simp
  with b r large_rendered show ?thesis
    by simp
qed

text \<open>
  Claim C3, amended. For every duration \<open>d\<close> with \<open>0 \<le> d < 2^53\<close> seconds and
  integer breakdown \<open>(D, H, M, S)\<close>, that is, whole days, hours below 24, minutes and
  seconds below 60 that add up to the whole seconds of \<open>d\<close>: \<open>format_uptime d\<close> is
  the first of the four patterns whose leading unit is nonzero (seconds only when all
  leading units are zero), every later unit of the chosen pattern is rendered, also when
  zero, and parsing the rendered string gives back exactly the rendered components, from
  which the breakdown is reconstructed. The unit sequence of the parsed string is one of
  \<open>dhms\<close>, \<open>hms\<close>, \<open>ms\<close> and \<open>s\<close>; a string has one unit sequence, so it
  matches one pattern only. Below \<open>2^53\<close> every value the float arithmetic of lines
  249-252 rounds is an integer that a double holds exactly.
\<close>

theorem format_uptime_roundtrip:
  assumes "0 \<le> d" and "d < 2 ^ 53" and "uptime_breakdown d = (D, H, M, S)"
  shows "format_uptime d =
       (if D \<noteq> 0 then py_str D @ ''d '' @ py_str H @ ''h '' @ py_str M @ ''m '' @ py_str S @ ''s''
        else if H \<noteq> 0 then py_str H @ ''h '' @ py_str M @ ''m '' @ py_str S @ ''s''
        else if M \<noteq> 0 then py_str M @ ''m '' @ py_str S @ ''s''
        else py_str S @ ''s'')
     \<and> parse_uptime (format_uptime d) =
       Some (if D \<noteq> 0 then [(D, CHR ''d''), (H, CHR ''h''), (M, CHR ''m''), (S, CHR ''s'')]
             else if H \<noteq> 0 then [(H, CHR ''h''), (M, CHR ''m''), (S, CHR ''s'')]
             else if M \<noteq> 0 then [(M, CHR ''m''), (S, CHR ''s'')]
             else [(S, CHR ''s'')])
     \<and> map_option (map snd) (parse_uptime (format_uptime d))
         \<in> {Some ''dhms'', Some ''hms'', Some ''ms'', Some ''s''}
     \<and> map_option reconstruct (parse_uptime (format_uptime d)) = Some (D, H, M, S)
     \<and> D * 86400 + H * 3600 + M * 60 + S = \<lfloor>d\<rfloor>
     \<and> 0 \<le> D \<and> 0 \<le> H \<and> H < 24 \<and> 0 \<le> M \<and> M < 60 \<and> 0 \<le> S \<and> S < 60"
proof -
  have eqs: "D = \<lfloor>d\<rfloor> div 86400" "H = \<lfloor>d\<rfloor> mod 86400 div 3600"
    "M = \<lfloor>d\<rfloor> mod 3600 div 60" "S = \<lfloor>d\<rfloor> mod 60"
    using assms(3) by (simp_all add: uptime_breakdown_def Let_def)
  have nn: "0 \<le> D" "0 \<le> H" "0 \<le> M" "0 \<le> S"
    unfolding eqs by (rule breakdown_nonneg [OF assms(1)])+
  have bounds: "H < 24" "M < 60" "S < 60"
    unfolding eqs by (rule breakdown_bounds)+
  have total: "D * 86400 + H * 3600 + M * 60 + S = \<lfloor>d\<rfloor>"
    unfolding eqs by (rule breakdown_sum)
  have pos: "0 < D \<longleftrightarrow> D \<noteq> 0" "0 < H \<longleftrightarrow> H \<noteq> 0" "0 < M \<longleftrightarrow> M \<noteq> 0"
    using nn by linarith+
  have fmt: "format_uptime d =
       (if D \<noteq> 0 then py_str D @ ''d '' @ py_str H @ ''h '' @ py_str M @ ''m '' @ py_str S @ ''s''
        else if H \<noteq> 0 then py_str H @ ''h '' @ py_str M @ ''m '' @ py_str S @ ''s''
        else if M \<noteq> 0 then py_str M @ ''m '' @ py_str S @ ''s''
        else py_str S @ ''s'')"
    unfolding format_uptime_breakdown [OF assms] pos by (rule refl)
  have parsed: "parse_uptime (format_uptime d) =
       Some (if D \<noteq> 0 then [(D, CHR ''d''), (H, CHR ''h''), (M, CHR ''m''), (S, CHR ''s'')]
             else if H \<noteq> 0 then [(H, CHR ''h''), (M, CHR ''m''), (S, CHR ''s'')]
             else if M \<noteq> 0 then [(M, CHR ''m''), (S, CHR ''s'')]
             else [(S, CHR ''s'')])"
    unfolding fmt by (rule format_uptime_parsed [OF nn])
  have units: "map_option (map snd) (parse_uptime (format_uptime d))
         \<in> {Some ''dhms'', Some ''hms'', Some ''ms'', Some ''s''}"
    unfolding parsed by simp
  have recon: "map_option reconstruct (parse_uptime (format_uptime d)) = Some (D, H, M, S)"
    unfolding parsed by (simp add: reconstruct_def component_def)
  show ?thesis
    by (intro conjI) (rule fmt parsed units recon total nn bounds)+
qed

theorem format_uptime_roundtrip_witness:
  "(0::real) \<le> 7323 / 2 \<and> (7323 / 2 :: real) < 2 ^ 53 \<and> uptime_breakdown (7323 / 2) = (0, 1, 1, 1)
   \<and> format_uptime (7323 / 2) = ''1h 1m 1s''
   \<and> parse_uptime (format_uptime (7323 / 2)) = Some [(1, CHR ''h''), (1, CHR ''m''), (1, CHR ''s'')]
   \<and> map_option reconstruct (parse_uptime (format_uptime (7323 / 2))) = Some (0, 1, 1, 1)"
proof -
  have h1: "(0::real) \<le> 7323 / 2" by simp
  have h0: "(7323 / 2 :: real) < 2 ^ 53" by simp
  have h2: "uptime_breakdown (7323 / 2) = (0, 1, 1, 1)"
    by (simp add: uptime_breakdown_def)
  have s1: "py_str 1 = ''1''"
    by code_simp
  note r = format_uptime_roundtrip [OF h1 h0 h2]
  have a: "format_uptime (7323 / 2) = ''1h 1m 1s''"
    using r [THEN conjunct1] by (simp add: s1)
  have b: "parse_uptime (format_uptime (7323 / 2)) = Some [(1, CHR ''h''), (1, CHR ''m''), (1, CHR ''s'')]"
    using r [THEN conjunct2, THEN conjunct1] by simp
  note c = r [THEN conjunct2, THEN conjunct2, THEN conjunct2, THEN conjunct1]
  show ?thesis
    by (intro conjI) (rule h1 h0 h2 a b c)+
qed

section \<open>One request through the application\<close>

text \<open>
  What \<open>serve\<close> does on each route, with the middleware and the framework layer
  unfolded. The later sections argue from these equations.
\<close>

lemma serve_root:
  "serve e GetRoot s =
     (record_request ''GET'' ''/'' 200 (t_end e - t_start e) s,
      Returned \<lparr>status_code = 200, content = JsonBody (Dict
        [(''application'', Str ''The Resilience Pilot''),
         (''version'', Str ''1.0.0''),
         (''endpoints'', Dict
            [(''health'', Str ''/health''),
             (''metrics'', Str ''/metrics''),
             (''chaos'', Str ''/simulate-crash'')])])\<rparr>)"
  by (simp add: serve_def instrument_requests_def inner_app_def dispatch_def root_handler_def)

lemma serve_health_failing:
  assumes "should_fail (CHAOS_MODE s) (draw e)"
  shows "serve e GetHealth s =
     (record_request ''GET'' ''/health'' 503 (t_end e - t_start e)
        (counter_inc (''GET'', ''/health'', 503) (s\<lparr>UPTIME_GAUGE := t_handler e - START_TIME s\<rparr>)),
      Returned \<lparr>status_code = 503,
        content = JsonBody (Dict [(''detail'', Str ''Service degraded (chaos mode active)'')])\<rparr>)"
  using assms
  by (simp add: serve_def instrument_requests_def inner_app_def dispatch_def health_check_def Let_def)

lemma serve_health_passing:
  assumes "\<not> should_fail (CHAOS_MODE s) (draw e)"
  shows "serve e GetHealth s =
     (record_request ''GET'' ''/health'' 200 (t_end e - t_start e)
        (s\<lparr>UPTIME_GAUGE := t_handler e - START_TIME s\<rparr>),
      Returned \<lparr>status_code = 200,
        content = JsonBody (Dict
          [(''status'', Str ''healthy''),
           (''uptime'', Float (Fin (py_round2 (t_handler e - START_TIME s)))),
           (''uptime_formatted'', Str (format_uptime (t_handler e - START_TIME s))),
           (''chaos_mode'', Bool (enabled (CHAOS_MODE s)))])\<rparr>)"
  using assms
  by (simp add: serve_def instrument_requests_def inner_app_def dispatch_def health_check_def Let_def)

lemma serve_metrics:
  "serve e GetMetrics s =
     (record_request ''GET'' ''/metrics'' 200 (t_end e - t_start e)
        (s\<lparr>UPTIME_GAUGE := t_handler e - START_TIME s\<rparr>),
      Returned \<lparr>status_code = 200,
        content = Exposition (REQUEST_COUNT s) (REQUEST_LATENCY s) (t_handler e - START_TIME s)\<rparr>)"
  by (simp add: serve_def instrument_requests_def inner_app_def dispatch_def metrics_def Let_def)

lemma serve_immediate:
  assumes "selected_mode r = Some ''immediate''"
  shows "serve e r s =
     (record_request ''POST'' ''/simulate-crash'' 500 (t_end e - t_start e)
        (counter_inc (''POST'', ''/simulate-crash'', 500) s),
      Returned \<lparr>status_code = 500, content = JsonBody (Dict [(''detail'', Str chaos_detail)])\<rparr>)"
  using assms
  by (cases r)
    (simp_all add: selected_mode_def serve_def instrument_requests_def inner_app_def dispatch_def
      simulate_crash_def)

lemma serve_degraded:
  assumes "selected_mode r = Some ''degraded''" and "r = PostSimulateCrash m p"
  shows "\<exists>v. serve e r s =
     (record_request ''POST'' ''/simulate-crash'' 200 (t_end e - t_start e)
        (s\<lparr>CHAOS_MODE := (CHAOS_MODE s)\<lparr>enabled := True,
             probability := py_min (py_max (case p of None \<Rightarrow> Fin 1 | Some prob \<Rightarrow> prob) (Fin 0)) (Fin 1)\<rparr>\<rparr>),
      Returned \<lparr>status_code = 200, content = JsonBody v\<rparr>)"
  using assms
  by (simp add: selected_mode_def serve_def instrument_requests_def inner_app_def dispatch_def
      simulate_crash_def Let_def)

lemma serve_reset:
  assumes "selected_mode r = Some ''reset''"
  shows "serve e r s =
     (record_request ''POST'' ''/simulate-crash'' 200 (t_end e - t_start e)
        (s\<lparr>CHAOS_MODE := (CHAOS_MODE s)\<lparr>enabled := False, probability := Fin 0\<rparr>\<rparr>),
      Returned \<lparr>status_code = 200, content = JsonBody (Dict
        [(''status'', Str ''chaos_disabled''),
         (''message'', Str ''Service restored to healthy state'')])\<rparr>)"
  using assms
  by (cases r)
    (simp_all add: selected_mode_def serve_def instrument_requests_def inner_app_def dispatch_def
      simulate_crash_def Let_def)

lemma serve_unknown_mode:
  assumes "selected_mode r = Some mode"
    and "mode \<noteq> ''immediate''" and "mode \<noteq> ''degraded''" and "mode \<noteq> ''reset''"
  shows "serve e r s =
     (record_request ''POST'' ''/simulate-crash'' 400 (t_end e - t_start e) s,
      Returned \<lparr>status_code = 400,
        content = JsonBody (Dict [(''detail'', Str (unknown_mode_detail mode))])\<rparr>)"
  using assms
  by (cases r)
    (auto simp add: selected_mode_def serve_def instrument_requests_def inner_app_def dispatch_def
      simulate_crash_def)

text \<open>Recording touches the two metric families only.\<close>

lemma record_request_chaos: "CHAOS_MODE (record_request m p c d s) = CHAOS_MODE s"
  by (simp add: record_request_def histogram_observe_def counter_inc_def)

lemma record_request_start: "START_TIME (record_request m p c d s) = START_TIME s"
  by (simp add: record_request_def histogram_observe_def counter_inc_def)

lemma counter_inc_chaos: "CHAOS_MODE (counter_inc k s) = CHAOS_MODE s"
  by (simp add: counter_inc_def)

lemma counter_inc_start: "START_TIME (counter_inc k s) = START_TIME s"
  by (simp add: counter_inc_def)

lemma record_request_count:
  "REQUEST_COUNT (record_request m p c d s) = (REQUEST_COUNT s)((m, p, c) := REQUEST_COUNT s (m, p, c) + 1)"
  by (simp add: record_request_def histogram_observe_def counter_inc_def)

lemma record_request_latency:
  "REQUEST_LATENCY (record_request m p c d s) = (REQUEST_LATENCY s)((m, p) := REQUEST_LATENCY s (m, p) @ [d])"
  by (simp add: record_request_def histogram_observe_def counter_inc_def)

text \<open>Every request is one of six cases.\<close>

lemma request_cases:
  obtains (root) "r = GetRoot"
    | (health) "r = GetHealth"
    | (metrics) "r = GetMetrics"
    | (immediate) "selected_mode r = Some ''immediate''"
    | (degraded) m p where "r = PostSimulateCrash m p" "selected_mode r = Some ''degraded''"
    | (reset) "selected_mode r = Some ''reset''"
    | (unknown) mode where "selected_mode r = Some mode"
        "mode \<noteq> ''immediate''" "mode \<noteq> ''degraded''" "mode \<noteq> ''reset''"
  by (cases r) (auto simp: selected_mode_def)

text \<open>A request that does not write the chaos state leaves it as it was.\<close>

lemma serve_keeps_chaos:
  assumes "\<not> writes_chaos r"
  shows "CHAOS_MODE (fst (serve e r s)) = CHAOS_MODE s"
proof (cases r rule: request_cases)
  case root
  then show ?thesis by (simp add: serve_root record_request_chaos)
next
  case health
  then show ?thesis
    by (cases "should_fail (CHAOS_MODE s) (draw e)")
      (simp_all add: serve_health_failing serve_health_passing record_request_chaos counter_inc_chaos)
next
  case metrics
  then show ?thesis by (simp add: serve_metrics record_request_chaos)
next
  case immediate
  then show ?thesis by (simp add: serve_immediate record_request_chaos counter_inc_chaos)
next
  case (degraded m p)
  with assms show ?thesis by (simp add: writes_chaos_def)
next
  case reset
  with assms show ?thesis by (simp add: writes_chaos_def)
next
  case (unknown mode)
  then show ?thesis by (simp add: serve_unknown_mode record_request_chaos)
qed

lemma serve_keeps_start: "START_TIME (fst (serve e r s)) = START_TIME s"
proof (cases r rule: request_cases)
  case root
  then show ?thesis by (simp add: serve_root record_request_start)
next
  case health
  then show ?thesis
    by (cases "should_fail (CHAOS_MODE s) (draw e)")
      (simp_all add: serve_health_failing serve_health_passing record_request_start counter_inc_start)
next
  case metrics
  then show ?thesis by (simp add: serve_metrics record_request_start)
next
  case immediate
  then show ?thesis by (simp add: serve_immediate record_request_start counter_inc_start)
next
  case (degraded m p)
  then show ?thesis
    using serve_degraded [of r m p e s] by (auto simp: record_request_start)
next
  case reset
  then show ?thesis by (simp add: serve_reset record_request_start)
next
  case (unknown mode)
  then show ?thesis by (simp add: serve_unknown_mode record_request_start)
qed

text \<open>While chaos is disabled, only a degraded-mode write can enable it.\<close>

lemma serve_keeps_disabled:
  assumes "\<not> is_degraded r" and "\<not> enabled (CHAOS_MODE s)"
  shows "\<not> enabled (CHAOS_MODE (fst (serve e r s)))"
proof (cases "selected_mode r = Some ''reset''")
  case True
  then show ?thesis by (simp add: serve_reset record_request_chaos)
next
  case False
  with assms(1) have "\<not> writes_chaos r"
    by (simp add: writes_chaos_def is_degraded_def)
  with assms(2) show ?thesis by (simp add: serve_keeps_chaos)
qed

section \<open>Sequences of requests\<close>

lemma run_step:
  "run ((e, r) # rest) s =
     (fst (run rest (fst (serve e r s))), snd (serve e r s) # snd (run rest (fst (serve e r s))))"
  by (simp split: prod.splits)

declare run.simps(2) [simp del]

lemma run_length: "length (snd (run rs s)) = length rs"
  by (induction rs arbitrary: s) (auto simp: run_step)

text \<open>The \<open>i\<close>-th outcome is that of the \<open>i\<close>-th request on the state the first \<open>i\<close> left.\<close>

lemma run_nth:
  assumes "i < length rs"
  shows "snd (run rs s) ! i = snd (serve (fst (rs ! i)) (snd (rs ! i)) (fst (run (take i rs) s)))"
  using assms
proof (induction rs arbitrary: i s)
  case Nil
  then show ?case by simp
next
  case (Cons x rs)
  obtain e r where x: "x = (e, r)" by (cases x)
  show ?case
  proof (cases i)
    case 0
    then show ?thesis by (simp add: x run_step)
  next
    case (Suc j)
    with Cons.prems have "j < length rs" by simp
    from Cons.IH [OF this] Suc show ?thesis
      by (simp add: x run_step)
  qed
qed

lemma run_keeps_chaos:
  assumes "\<forall>(e, r) \<in> set rs. \<not> writes_chaos r"
  shows "CHAOS_MODE (fst (run rs s)) = CHAOS_MODE s"
  using assms
  by (induction rs arbitrary: s) (auto simp: run_step serve_keeps_chaos)

lemma run_keeps_disabled:
  assumes "\<forall>(e, r) \<in> set rs. \<not> is_degraded r" and "\<not> enabled (CHAOS_MODE s)"
  shows "\<not> enabled (CHAOS_MODE (fst (run rs s)))"
  using assms
proof (induction rs arbitrary: s)
  case Nil
  then show ?case by simp
next
  case (Cons x rs)
  obtain e r where x: "x = (e, r)" by (cases x)
  from Cons.prems have "\<not> is_degraded r" and rest: "\<forall>(e, r) \<in> set rs. \<not> is_degraded r"
    by (auto simp: x)
  with Cons.prems(2) have "\<not> enabled (CHAOS_MODE (fst (serve e r s)))"
    by (simp add: serve_keeps_disabled)
  from Cons.IH [OF rest this] show ?case
    by (simp add: x run_step)
qed

lemma set_take_subset_Ball:
  assumes "\<forall>x \<in> set rs. P x"
  shows "\<forall>x \<in> set (take k rs). P x"
  using assms by (meson in_set_takeD)

section \<open>Clamping and rounding\<close>

lemma clamp_not_nan:
  assumes "p \<noteq> NaN"
  shows "py_min (py_max p (Fin 0)) (Fin 1) = clamp01 p" and "in_unit_interval (clamp01 p)"
  using assms by (cases p; simp add: py_min_def py_max_def clamp01_def in_unit_interval_def)+

lemma clamp_nan: "py_min (py_max NaN (Fin 0)) (Fin 1) = NaN"
  by (simp add: py_min_def py_max_def)

lemma round_half_even_close: "\<bar>of_int (round_half_even y) - y\<bar> \<le> 1 / 2"
proof -
  have "of_int \<lfloor>y\<rfloor> \<le> y" and "y < of_int \<lfloor>y\<rfloor> + 1"
    by linarith+
  then show ?thesis
    by (auto simp: round_half_even_def Let_def)
qed

lemma py_round2_close: "\<bar>py_round2 x - x\<bar> \<le> 1 / 200"
  using round_half_even_close [of "x * 100"] by (simp add: py_round2_def field_simps)

lemma py_round2_hundredths: "\<exists>k::int. py_round2 x = of_int k / 100"
  by (auto simp: py_round2_def)

section \<open>The health endpoint\<close>

lemma health_outcome_reads:
  assumes "CHAOS_MODE s' = CHAOS_MODE s" and "START_TIME s' = START_TIME s"
  shows "snd (serve e GetHealth s') = snd (serve e GetHealth s)"
  using assms
  by (cases "should_fail (CHAOS_MODE s) (draw e)")
    (simp_all add: serve_health_failing serve_health_passing)

text \<open>
  Claim C9. \<^verbatim>\<open>GET /health\<close> answers 503 with the detail
  \<^verbatim>\<open>Service degraded (chaos mode active)\<close> when chaos triggers, and otherwise
  200 with exactly the four fields: status \<^verbatim>\<open>healthy\<close>, the elapsed seconds rounded
  to two decimals, their \<open>format_uptime\<close> rendering and the enabled flag of the chaos
  state. The rounded value is a whole number of hundredths at most half a hundredth away
  from the elapsed time.
\<close>

theorem health_check_response:
  "snd (serve e GetHealth s) =
     (if should_fail (CHAOS_MODE s) (draw e) then
        Returned \<lparr>status_code = 503,
          content = JsonBody (Dict [(''detail'', Str ''Service degraded (chaos mode active)'')])\<rparr>
      else
        Returned \<lparr>status_code = 200,
          content = JsonBody (Dict
            [(''status'', Str ''healthy''),
             (''uptime'', Float (Fin (py_round2 (t_handler e - START_TIME s)))),
             (''uptime_formatted'', Str (format_uptime (t_handler e - START_TIME s))),
             (''chaos_mode'', Bool (enabled (CHAOS_MODE s)))])\<rparr>)
   \<and> \<bar>py_round2 (t_handler e - START_TIME s) - (t_handler e - START_TIME s)\<bar> \<le> 1 / 200
   \<and> (\<exists>k::int. py_round2 (t_handler e - START_TIME s) = of_int k / 100)"
proof (intro conjI)
  show "snd (serve e GetHealth s) =
     (if should_fail (CHAOS_MODE s) (draw e) then
        Returned \<lparr>status_code = 503,
          content = JsonBody (Dict [(''detail'', Str ''Service degraded (chaos mode active)'')])\<rparr>
      else
        Returned \<lparr>status_code = 200,
          content = JsonBody (Dict
            [(''status'', Str ''healthy''),
             (''uptime'', Float (Fin (py_round2 (t_handler e - START_TIME s)))),
             (''uptime_formatted'', Str (format_uptime (t_handler e - START_TIME s))),
             (''chaos_mode'', Bool (enabled (CHAOS_MODE s)))])\<rparr>)"
    by (cases "should_fail (CHAOS_MODE s) (draw e)")
      (simp_all add: serve_health_failing serve_health_passing)
  show "\<bar>py_round2 (t_handler e - START_TIME s) - (t_handler e - START_TIME s)\<bar> \<le> 1 / 200"
    by (rule py_round2_close)
  show "\<exists>k::int. py_round2 (t_handler e - START_TIME s) = of_int k / 100"
    by (rule py_round2_hundredths)
qed

section \<open>Counting requests\<close>

text \<open>
  Every request leaves exactly one latency observation, under its method and path. The
  counter is incremented once by the middleware, under the status of the outcome; the
  health handler on its failure branch (line 147) and the chaos handler in immediate
  mode (line 210) increment the same child once more before they raise.
\<close>

lemma serve_latency:
  "REQUEST_LATENCY (fst (serve e r s)) =
     (REQUEST_LATENCY s)((http_method r, url_path r) :=
        REQUEST_LATENCY s (http_method r, url_path r) @ [t_end e - t_start e])"
proof (cases r rule: request_cases)
  case root
  then show ?thesis by (simp add: serve_root record_request_latency)
next
  case health
  then show ?thesis
    by (cases "should_fail (CHAOS_MODE s) (draw e)")
      (simp_all add: serve_health_failing serve_health_passing record_request_latency counter_inc_def)
next
  case metrics
  then show ?thesis by (simp add: serve_metrics record_request_latency)
next
  case immediate
  then show ?thesis
    by (cases r) (simp_all add: selected_mode_def serve_immediate record_request_latency counter_inc_def)
next
  case (degraded m p)
  then show ?thesis
    using serve_degraded [of r m p e s] by (auto simp: record_request_latency)
next
  case reset
  then show ?thesis
    by (cases r) (simp_all add: selected_mode_def serve_reset record_request_latency)
next
  case (unknown mode)
  then show ?thesis
    by (cases r) (simp_all add: selected_mode_def serve_unknown_mode record_request_latency)
qed

lemma serve_count:
  "\<exists>resp. snd (serve e r s) = Returned resp
     \<and> REQUEST_COUNT (fst (serve e r s)) =
         (REQUEST_COUNT s)((http_method r, url_path r, status_code resp) :=
            REQUEST_COUNT s (http_method r, url_path r, status_code resp)
              + (if handler_counts e r s then 2 else 1))"
proof (cases r rule: request_cases)
  case root
  then show ?thesis
    by (simp add: serve_root record_request_count handler_counts_def selected_mode_def)
next
  case health
  then show ?thesis
    by (cases "should_fail (CHAOS_MODE s) (draw e)")
      (simp_all add: serve_health_failing serve_health_passing record_request_count counter_inc_def
        handler_counts_def selected_mode_def)
next
  case metrics
  then show ?thesis
    by (simp add: serve_metrics record_request_count handler_counts_def selected_mode_def)
next
  case immediate
  then show ?thesis
    by (cases r)
      (simp_all add: selected_mode_def serve_immediate record_request_count counter_inc_def
        handler_counts_def)
next
  case (degraded m p)
  then show ?thesis
    using serve_degraded [of r m p e s] by (auto simp: record_request_count handler_counts_def)
next
  case reset
  then show ?thesis
    by (cases r)
      (simp_all add: selected_mode_def serve_reset record_request_count handler_counts_def)
next
  case (unknown mode)
  then show ?thesis
    by (cases r)
      (simp_all add: selected_mode_def serve_unknown_mode record_request_count handler_counts_def)
qed

text \<open>
  Claim C1. The claim asks for exactly one counter increment and one latency observation
  on every call. On the failure branch of \<^verbatim>\<open>GET /health\<close> the code records one
  latency observation but increments the counter child \<open>(GET, /health, 503)\<close> twice.
\<close>

theorem health_failure_counted_twice:
  assumes "should_fail (CHAOS_MODE s) (draw e)"
  shows "REQUEST_COUNT (fst (serve e GetHealth s)) (''GET'', ''/health'', 503)
       = REQUEST_COUNT s (''GET'', ''/health'', 503) + 2
     \<and> length (REQUEST_LATENCY (fst (serve e GetHealth s)) (''GET'', ''/health''))
       = length (REQUEST_LATENCY s (''GET'', ''/health'')) + 1
     \<and> snd (serve e GetHealth s) =
         Returned \<lparr>status_code = 503,
           content = JsonBody (Dict [(''detail'', Str ''Service degraded (chaos mode active)'')])\<rparr>"
  using assms
  by (simp add: serve_health_failing record_request_count record_request_latency counter_inc_def)

theorem health_failure_counted_twice_witness:
  "should_fail (CHAOS_MODE ((startup 0)\<lparr>CHAOS_MODE := \<lparr>enabled = True, probability = Fin 1\<rparr>\<rparr>))
     (draw \<lparr>t_start = 10, t_handler = 11, t_end = 12, draw = 1 / 2\<rparr>)
   \<and> REQUEST_COUNT (fst (serve \<lparr>t_start = 10, t_handler = 11, t_end = 12, draw = 1 / 2\<rparr> GetHealth
        ((startup 0)\<lparr>CHAOS_MODE := \<lparr>enabled = True, probability = Fin 1\<rparr>\<rparr>)))
        (''GET'', ''/health'', 503) = 2
   \<and> length (REQUEST_LATENCY (fst (serve \<lparr>t_start = 10, t_handler = 11, t_end = 12, draw = 1 / 2\<rparr> GetHealth
        ((startup 0)\<lparr>CHAOS_MODE := \<lparr>enabled = True, probability = Fin 1\<rparr>\<rparr>)))
        (''GET'', ''/health'')) = 1"
proof -
  have h: "should_fail (CHAOS_MODE ((startup 0)\<lparr>CHAOS_MODE := \<lparr>enabled = True, probability = Fin 1\<rparr>\<rparr>))
     (draw \<lparr>t_start = 10, t_handler = 11, t_end = 12, draw = 1 / 2\<rparr>)"
    by (simp add: should_fail_def)
  show ?thesis
    using h health_failure_counted_twice [OF h] by (simp add: startup_def)
qed

text \<open>
  Claim C2. \<^verbatim>\<open>POST /simulate-crash\<close> with mode \<^verbatim>\<open>immediate\<close> answers 500
  with the fixed chaos detail on every call; the claim asks for one increment of the
  counter child \<open>(POST, /simulate-crash, 500)\<close> per call, and the code makes two.
\<close>

theorem immediate_crash_counted_twice:
  "snd (serve e (PostSimulateCrash (Some ''immediate'') p) s) =
       Returned \<lparr>status_code = 500, content = JsonBody (Dict [(''detail'', Str chaos_detail)])\<rparr>
   \<and> REQUEST_COUNT (fst (serve e (PostSimulateCrash (Some ''immediate'') p) s))
        (''POST'', ''/simulate-crash'', 500)
       = REQUEST_COUNT s (''POST'', ''/simulate-crash'', 500) + 2"
  by (simp add: serve_immediate selected_mode_def record_request_count counter_inc_def)

text \<open>
  Claim C10. A \<^verbatim>\<open>POST /simulate-crash\<close> without a mode parameter is the
  immediate mode: same state, same outcome, which is the 500 chaos fault, and the counter
  child \<open>(POST, /simulate-crash, 500)\<close> has grown.
\<close>

theorem bare_post_is_immediate:
  "serve e (PostSimulateCrash None p) s = serve e (PostSimulateCrash (Some ''immediate'') p) s
   \<and> snd (serve e (PostSimulateCrash None p) s) =
       Returned \<lparr>status_code = 500, content = JsonBody (Dict [(''detail'', Str chaos_detail)])\<rparr>
   \<and> REQUEST_COUNT s (''POST'', ''/simulate-crash'', 500)
       < REQUEST_COUNT (fst (serve e (PostSimulateCrash None p) s)) (''POST'', ''/simulate-crash'', 500)"
  by (simp add: serve_immediate selected_mode_def record_request_count counter_inc_def)

section \<open>Writing the chaos state\<close>

lemma degraded_clamps:
  assumes "p \<noteq> NaN"
  shows "enabled (CHAOS_MODE (fst (serve e (PostSimulateCrash (Some ''degraded'') (Some p)) s)))"
    and "probability (CHAOS_MODE (fst (serve e (PostSimulateCrash (Some ''degraded'') (Some p)) s)))
           = clamp01 p"
    and "in_unit_interval
           (probability (CHAOS_MODE (fst (serve e (PostSimulateCrash (Some ''degraded'') (Some p)) s))))"
  using serve_degraded [of "PostSimulateCrash (Some ''degraded'') (Some p)" "Some ''degraded''" "Some p" e s]
    clamp_not_nan [OF assms]
  by (auto simp: selected_mode_def record_request_chaos)

text \<open>
  Claim C4. The claim asks that after a degraded-mode write the stored probability is
  the clamp of the argument and lies in the unit interval, for every float. For NaN both
  comparisons of the clamp are false: the write enables chaos and stores NaN.
\<close>

theorem degraded_nan_is_stored:
  "enabled (CHAOS_MODE (fst (serve e (PostSimulateCrash (Some ''degraded'') (Some NaN)) s)))
   \<and> probability (CHAOS_MODE (fst (serve e (PostSimulateCrash (Some ''degraded'') (Some NaN)) s))) = NaN
   \<and> \<not> in_unit_interval
         (probability (CHAOS_MODE (fst (serve e (PostSimulateCrash (Some ''degraded'') (Some NaN)) s))))"
  using serve_degraded [of "PostSimulateCrash (Some ''degraded'') (Some NaN)" "Some ''degraded''" "Some NaN" e s]
  by (auto simp: selected_mode_def record_request_chaos clamp_nan in_unit_interval_def)

text \<open>
  Claim C7. A mode outside \<^verbatim>\<open>immediate\<close>, \<^verbatim>\<open>degraded\<close> and
  \<^verbatim>\<open>reset\<close> is answered 400 with a detail that names the mode, both fields of the
  chaos state stay as they were, and any later \<^verbatim>\<open>GET /health\<close> has the outcome
  it would have had without the malformed call.
\<close>

theorem unknown_mode_rejected:
  assumes "mode \<noteq> ''immediate''" and "mode \<noteq> ''degraded''" and "mode \<noteq> ''reset''"
  shows "snd (serve e (PostSimulateCrash (Some mode) p) s) =
       Returned \<lparr>status_code = 400,
         content = JsonBody (Dict [(''detail'', Str (''Unknown mode: '' @ mode @ ''. Use ''
           @ [CHR 0x27] @ ''immediate'' @ [CHR 0x27] @ '', '' @ [CHR 0x27] @ ''degraded''
           @ [CHR 0x27] @ '', or '' @ [CHR 0x27] @ ''reset'' @ [CHR 0x27]))])\<rparr>
     \<and> enabled (CHAOS_MODE (fst (serve e (PostSimulateCrash (Some mode) p) s))) = enabled (CHAOS_MODE s)
     \<and> probability (CHAOS_MODE (fst (serve e (PostSimulateCrash (Some mode) p) s)))
         = probability (CHAOS_MODE s)
     \<and> (\<forall>e'. snd (serve e' GetHealth (fst (serve e (PostSimulateCrash (Some mode) p) s)))
            = snd (serve e' GetHealth s))"
proof -
  let ?r = "PostSimulateCrash (Some mode) p"
  have sel: "selected_mode ?r = Some mode"
    by (simp add: selected_mode_def)
  note step = serve_unknown_mode [OF sel assms, of e s]
  have chaos: "CHAOS_MODE (fst (serve e ?r s)) = CHAOS_MODE s"
    by (simp add: step record_request_chaos)
  have start: "START_TIME (fst (serve e ?r s)) = START_TIME s"
    by (rule serve_keeps_start)
  have "\<forall>e'. snd (serve e' GetHealth (fst (serve e ?r s))) = snd (serve e' GetHealth s)"
    using health_outcome_reads [OF chaos start] by simp
  then show ?thesis
    by (simp add: chaos) (simp add: step unknown_mode_detail_def)
qed

theorem unknown_mode_rejected_witness:
  "''bogus'' \<noteq> ''immediate'' \<and> ''bogus'' \<noteq> ''degraded'' \<and> ''bogus'' \<noteq> ''reset''
   \<and> snd (serve \<lparr>t_start = 10, t_handler = 11, t_end = 12, draw = 1 / 2\<rparr>
        (PostSimulateCrash (Some ''bogus'') None) (startup 0)) =
       Returned \<lparr>status_code = 400,
         content = JsonBody (Dict [(''detail'', Str (''Unknown mode: bogus. Use ''
           @ [CHR 0x27] @ ''immediate'' @ [CHR 0x27] @ '', '' @ [CHR 0x27] @ ''degraded''
           @ [CHR 0x27] @ '', or '' @ [CHR 0x27] @ ''reset'' @ [CHR 0x27]))])\<rparr>
   \<and> enabled (CHAOS_MODE (fst (serve \<lparr>t_start = 10, t_handler = 11, t_end = 12, draw = 1 / 2\<rparr>
        (PostSimulateCrash (Some ''bogus'') None) (startup 0)))) = False
   \<and> probability (CHAOS_MODE (fst (serve \<lparr>t_start = 10, t_handler = 11, t_end = 12, draw = 1 / 2\<rparr>
        (PostSimulateCrash (Some ''bogus'') None) (startup 0)))) = Fin 0"
proof -
  have h: "''bogus'' \<noteq> ''immediate''" "''bogus'' \<noteq> ''degraded''" "''bogus'' \<noteq> ''reset''"
    by simp_all
  show ?thesis
    using unknown_mode_rejected [OF h, of "\<lparr>t_start = 10, t_handler = 11, t_end = 12, draw = 1 / 2\<rparr>"
        None "startup 0"]
    by (simp add: startup_def)
qed

section \<open>After a write to the chaos state\<close>

lemma disabled_never_fails: "\<not> enabled c \<Longrightarrow> \<not> should_fail c u"
  by (simp add: should_fail_def)

lemma certain_always_fails:
  assumes "enabled c" and "probability c = Fin 1" and "u < 1"
  shows "should_fail c u"
  using assms by (simp add: should_fail_def)

lemma after_reset: "\<not> enabled (CHAOS_MODE (fst (serve e (PostSimulateCrash (Some ''reset'') p) s)))"
  by (simp add: serve_reset selected_mode_def record_request_chaos)

lemma after_degraded_one:
  "enabled (CHAOS_MODE (fst (serve e (PostSimulateCrash (Some ''degraded'') (Some (Fin 1))) s)))"
  "probability (CHAOS_MODE (fst (serve e (PostSimulateCrash (Some ''degraded'') (Some (Fin 1))) s))) = Fin 1"
  using degraded_clamps [of "Fin 1" e s] by (simp_all add: clamp01_def)

lemma health_ok_when_disabled:
  assumes "\<not> enabled (CHAOS_MODE s)"
  shows "\<exists>resp. snd (serve e GetHealth s) = Returned resp \<and> status_code resp = 200"
  using assms by (simp add: serve_health_passing disabled_never_fails)

text \<open>
  Claim C5. After a reset, whatever the state was before, chaos is disabled with
  probability 0.0, the failure condition of the
  health check is false for every draw at every later moment, and every later
  \<^verbatim>\<open>GET /health\<close> answers 200, for as long as no degraded-mode write is served.
\<close>

theorem reset_disables_failures:
  assumes "\<forall>(e, r) \<in> set rs. \<not> is_degraded r"
    and "s1 = fst (serve e0 (PostSimulateCrash (Some ''reset'') p) s)"
  shows "\<not> enabled (CHAOS_MODE s1) \<and> probability (CHAOS_MODE s1) = Fin 0
     \<and> (\<forall>k \<le> length rs. \<forall>u. \<not> should_fail (CHAOS_MODE (fst (run (take k rs) s1))) u)
     \<and> (\<forall>i < length rs. snd (rs ! i) = GetHealth \<longrightarrow>
           (\<exists>resp. snd (run rs s1) ! i = Returned resp \<and> status_code resp = 200))"
proof -
  have off: "\<not> enabled (CHAOS_MODE s1)"
    unfolding assms(2) by (rule after_reset)
  have later: "\<not> enabled (CHAOS_MODE (fst (run (take k rs) s1)))" for k
    using set_take_subset_Ball [OF assms(1)] off by (rule run_keeps_disabled)
  have "\<exists>resp. snd (run rs s1) ! i = Returned resp \<and> status_code resp = 200"
    if "i < length rs" and "snd (rs ! i) = GetHealth" for i
    using that later [of i] by (simp add: run_nth health_ok_when_disabled)
  moreover have "probability (CHAOS_MODE s1) = Fin 0"
    unfolding assms(2) by (simp add: serve_reset selected_mode_def record_request_chaos)
  ultimately show ?thesis
    using off later by (simp add: disabled_never_fails)
qed

theorem reset_disables_failures_witness:
  "\<not> is_degraded GetHealth \<and> \<not> is_degraded (PostSimulateCrash (Some ''bogus'') None)
   \<and> \<not> should_fail (CHAOS_MODE (fst (run
         [(\<lparr>t_start = 20, t_handler = 21, t_end = 22, draw = 0\<rparr>, GetHealth),
          (\<lparr>t_start = 30, t_handler = 31, t_end = 32, draw = 0\<rparr>, PostSimulateCrash (Some ''bogus'') None)]
         (fst (serve \<lparr>t_start = 10, t_handler = 11, t_end = 12, draw = 0\<rparr>
            (PostSimulateCrash (Some ''reset'') None)
            ((startup 0)\<lparr>CHAOS_MODE := \<lparr>enabled = True, probability = Fin 1\<rparr>\<rparr>)))))) 0
   \<and> (\<exists>resp. snd (run
         [(\<lparr>t_start = 20, t_handler = 21, t_end = 22, draw = 0\<rparr>, GetHealth),
          (\<lparr>t_start = 30, t_handler = 31, t_end = 32, draw = 0\<rparr>, PostSimulateCrash (Some ''bogus'') None)]
         (fst (serve \<lparr>t_start = 10, t_handler = 11, t_end = 12, draw = 0\<rparr>
            (PostSimulateCrash (Some ''reset'') None)
            ((startup 0)\<lparr>CHAOS_MODE := \<lparr>enabled = True, probability = Fin 1\<rparr>\<rparr>)))) ! 0 = Returned resp
        \<and> status_code resp = 200)"
proof -
  let ?rs = "[(\<lparr>t_start = 20, t_handler = 21, t_end = 22, draw = 0\<rparr>, GetHealth),
          (\<lparr>t_start = 30, t_handler = 31, t_end = 32, draw = 0\<rparr>, PostSimulateCrash (Some ''bogus'') None)]"
  let ?s1 = "fst (serve \<lparr>t_start = 10, t_handler = 11, t_end = 12, draw = 0\<rparr>
            (PostSimulateCrash (Some ''reset'') None)
            ((startup 0)\<lparr>CHAOS_MODE := \<lparr>enabled = True, probability = Fin 1\<rparr>\<rparr>))"
  have h1: "\<not> is_degraded GetHealth" and h2: "\<not> is_degraded (PostSimulateCrash (Some ''bogus'') None)"
    by (simp_all add: is_degraded_def selected_mode_def)
  then have h: "\<forall>(e, r) \<in> set ?rs. \<not> is_degraded r"
    by simp
  note inst = reset_disables_failures [OF h refl]
  have a: "\<not> should_fail (CHAOS_MODE (fst (run ?rs ?s1))) 0"
    using inst [THEN conjunct2, THEN conjunct2, THEN conjunct1, rule_format, of 2] by simp
  have b: "\<exists>resp. snd (run ?rs ?s1) ! 0 = Returned resp \<and> status_code resp = 200"
    using inst [THEN conjunct2, THEN conjunct2, THEN conjunct2, rule_format, of 0] by simp
  show ?thesis
    by (intro conjI) (rule h1 h2 a b)+
qed

text \<open>
  Claim C6. After a degraded-mode write with probability 1.0, every later
  \<^verbatim>\<open>GET /health\<close> answers 503, whatever the draw in \<open>[0, 1)\<close>; after a reset,
  every later \<^verbatim>\<open>GET /health\<close> answers 200. "Later" runs until the next write to
  the chaos state; other requests may come in between.
\<close>

theorem degraded_one_then_reset:
  assumes "\<forall>(e, r) \<in> set rs. \<not> writes_chaos r \<and> 0 \<le> draw e \<and> draw e < 1"
  shows "(\<forall>i < length rs. snd (rs ! i) = GetHealth \<longrightarrow>
           snd (run rs (fst (serve e0 (PostSimulateCrash (Some ''degraded'') (Some (Fin 1))) s))) ! i =
             Returned \<lparr>status_code = 503,
               content = JsonBody (Dict [(''detail'', Str ''Service degraded (chaos mode active)'')])\<rparr>)
     \<and> (\<forall>i < length rs. snd (rs ! i) = GetHealth \<longrightarrow>
           (\<exists>resp. snd (run rs (fst (serve e0 (PostSimulateCrash (Some ''reset'') p) s))) ! i = Returned resp
              \<and> status_code resp = 200))"
proof (intro conjI allI impI)
  fix i
  assume i: "i < length rs" and health: "snd (rs ! i) = GetHealth"
  have quiet: "\<forall>(e, r) \<in> set (take i rs). \<not> writes_chaos r"
    using set_take_subset_Ball [OF assms, of i] by auto
  have "rs ! i \<in> set rs"
    using i by simp
  with assms have unit: "draw (fst (rs ! i)) < 1"
    by (auto simp: case_prod_beta)
  {
    let ?s1 = "fst (serve e0 (PostSimulateCrash (Some ''degraded'') (Some (Fin 1))) s)"
    have "CHAOS_MODE (fst (run (take i rs) ?s1)) = CHAOS_MODE ?s1"
      using quiet by (rule run_keeps_chaos)
    then have "should_fail (CHAOS_MODE (fst (run (take i rs) ?s1))) (draw (fst (rs ! i)))"
      using after_degraded_one [of e0 s] unit by (simp add: certain_always_fails)
    then show "snd (run rs ?s1) ! i =
        Returned \<lparr>status_code = 503,
          content = JsonBody (Dict [(''detail'', Str ''Service degraded (chaos mode active)'')])\<rparr>"
      using i health by (simp add: run_nth serve_health_failing)
  }
  {
    let ?s1 = "fst (serve e0 (PostSimulateCrash (Some ''reset'') p) s)"
    have "CHAOS_MODE (fst (run (take i rs) ?s1)) = CHAOS_MODE ?s1"
      using quiet by (rule run_keeps_chaos)
    then have "\<not> enabled (CHAOS_MODE (fst (run (take i rs) ?s1)))"
      using after_reset [of e0 p s] by simp
    then show "\<exists>resp. snd (run rs ?s1) ! i = Returned resp \<and> status_code resp = 200"
      using i health by (simp add: run_nth health_ok_when_disabled)
  }
qed

theorem degraded_one_then_reset_witness:
  "\<not> writes_chaos GetHealth \<and> \<not> writes_chaos GetMetrics
   \<and> (0::real) \<le> 0 \<and> (0::real) < 1 \<and> (0::real) \<le> 999 / 1000 \<and> (999 / 1000 :: real) < 1
   \<and> snd (run
         [(\<lparr>t_start = 20, t_handler = 21, t_end = 22, draw = 0\<rparr>, GetMetrics),
          (\<lparr>t_start = 30, t_handler = 31, t_end = 32, draw = 999 / 1000\<rparr>, GetHealth)]
         (fst (serve \<lparr>t_start = 10, t_handler = 11, t_end = 12, draw = 0\<rparr>
            (PostSimulateCrash (Some ''degraded'') (Some (Fin 1))) (startup 0)))) ! 1 =
       Returned \<lparr>status_code = 503,
         content = JsonBody (Dict [(''detail'', Str ''Service degraded (chaos mode active)'')])\<rparr>
   \<and> (\<exists>resp. snd (run
         [(\<lparr>t_start = 20, t_handler = 21, t_end = 22, draw = 0\<rparr>, GetMetrics),
          (\<lparr>t_start = 30, t_handler = 31, t_end = 32, draw = 999 / 1000\<rparr>, GetHealth)]
         (fst (serve \<lparr>t_start = 10, t_handler = 11, t_end = 12, draw = 0\<rparr>
            (PostSimulateCrash (Some ''reset'') None) (startup 0)))) ! 1 = Returned resp
        \<and> status_code resp = 200)"
proof -
  let ?rs = "[(\<lparr>t_start = 20, t_handler = 21, t_end = 22, draw = 0\<rparr>, GetMetrics),
          (\<lparr>t_start = 30, t_handler = 31, t_end = 32, draw = 999 / 1000\<rparr>, GetHealth)]"
  have h1: "\<not> writes_chaos GetHealth" and h2: "\<not> writes_chaos GetMetrics"
    by (simp_all add: writes_chaos_def selected_mode_def)
  have d: "(0::real) \<le> 0" "(0::real) < 1" "(0::real) \<le> 999 / 1000" "(999 / 1000 :: real) < 1"
    by simp_all
  have h: "\<forall>(e, r) \<in> set ?rs. \<not> writes_chaos r \<and> 0 \<le> draw e \<and> draw e < 1"
    using h1 h2 by simp
  note inst = degraded_one_then_reset [OF h, of "\<lparr>t_start = 10, t_handler = 11, t_end = 12, draw = 0\<rparr>"
      "startup 0" None]
  have a: "snd (run ?rs (fst (serve \<lparr>t_start = 10, t_handler = 11, t_end = 12, draw = 0\<rparr>
            (PostSimulateCrash (Some ''degraded'') (Some (Fin 1))) (startup 0)))) ! 1 =
       Returned \<lparr>status_code = 503,
         content = JsonBody (Dict [(''detail'', Str ''Service degraded (chaos mode active)'')])\<rparr>"
    using inst [THEN conjunct1, rule_format, of 1] by simp
  have b: "\<exists>resp. snd (run ?rs (fst (serve \<lparr>t_start = 10, t_handler = 11, t_end = 12, draw = 0\<rparr>
            (PostSimulateCrash (Some ''reset'') None) (startup 0)))) ! 1 = Returned resp
        \<and> status_code resp = 200"
    using inst [THEN conjunct2, rule_format, of 1] by simp
  show ?thesis
    by (intro conjI) (rule h1 h2 d a b)+
qed

section \<open>Faults through the middleware\<close>

text \<open>
  A fault a handler signals through \<^verbatim>\<open>HTTPException\<close> reaches the middleware as
  the response the framework made of it, and is recorded under its own status code.
\<close>

lemma mapped_fault_recorded:
  assumes "dispatch e r s = (s1, Inl (HTTPException code detail))"
  shows "serve e r s =
     (record_request (http_method r) (url_path r) code (t_end e - t_start e) s1,
      Returned \<lparr>status_code = code, content = JsonBody (Dict [(''detail'', Str detail)])\<rparr>)"
  using assms by (simp add: serve_def instrument_requests_def inner_app_def)

text \<open>
  Claim C8. Whenever the rest of the stack raises a fault, the middleware records the
  request with status 500, that is one increment of the counter child
  \<open>(method, path, 500)\<close> and one latency observation, and then raises the very same
  fault.
\<close>

theorem middleware_records_and_reraises:
  assumes "call_next r s = (s1, Raised (Fault ex))"
  shows "snd (instrument_requests e r call_next s) = Raised (Fault ex)
     \<and> fst (instrument_requests e r call_next s) =
         record_request (http_method r) (url_path r) 500 (t_end e - t_start e) s1
     \<and> REQUEST_COUNT (fst (instrument_requests e r call_next s)) =
         (REQUEST_COUNT s1)((http_method r, url_path r, 500) :=
            REQUEST_COUNT s1 (http_method r, url_path r, 500) + 1)
     \<and> REQUEST_LATENCY (fst (instrument_requests e r call_next s)) =
         (REQUEST_LATENCY s1)((http_method r, url_path r) :=
            REQUEST_LATENCY s1 (http_method r, url_path r) @ [t_end e - t_start e])"
  using assms
  by (simp add: instrument_requests_def record_request_count record_request_latency)

theorem middleware_records_and_reraises_witness:
  "(\<lambda>r s. (s, Raised (Fault (OtherException ''boom'')))) GetRoot (startup 0)
      = (startup 0, Raised (Fault (OtherException ''boom'')))
   \<and> snd (instrument_requests \<lparr>t_start = 10, t_handler = 11, t_end = 12, draw = 0\<rparr> GetRoot
        (\<lambda>r s. (s, Raised (Fault (OtherException ''boom'')))) (startup 0))
      = Raised (Fault (OtherException ''boom''))
   \<and> REQUEST_COUNT (fst (instrument_requests \<lparr>t_start = 10, t_handler = 11, t_end = 12, draw = 0\<rparr> GetRoot
        (\<lambda>r s. (s, Raised (Fault (OtherException ''boom'')))) (startup 0))) (''GET'', ''/'', 500) = 1
   \<and> REQUEST_LATENCY (fst (instrument_requests \<lparr>t_start = 10, t_handler = 11, t_end = 12, draw = 0\<rparr> GetRoot
        (\<lambda>r s. (s, Raised (Fault (OtherException ''boom'')))) (startup 0))) (''GET'', ''/'') = [2]"
proof -
  let ?e = "\<lparr>t_start = 10, t_handler = 11, t_end = 12, draw = 0\<rparr>"
  let ?next = "\<lambda>(r::request) (s::app_state). (s, Raised (Fault (OtherException ''boom'')))"
  have h: "?next GetRoot (startup 0) = (startup 0, Raised (Fault (OtherException ''boom'')))"
    by simp
  note inst = middleware_records_and_reraises
      [where call_next = ?next and r = GetRoot and s = "startup 0" and ?s1.0 = "startup 0"
        and ex = "OtherException ''boom''" and e = ?e, OF h]
  have a: "snd (instrument_requests ?e GetRoot ?next (startup 0)) = Raised (Fault (OtherException ''boom''))"
    using inst [THEN conjunct1] by simp
  have b: "REQUEST_COUNT (fst (instrument_requests ?e GetRoot ?next (startup 0))) (''GET'', ''/'', 500) = 1"
    using inst [THEN conjunct2, THEN conjunct2, THEN conjunct1] by (simp add: startup_def)
  have c: "REQUEST_LATENCY (fst (instrument_requests ?e GetRoot ?next (startup 0))) (''GET'', ''/'') = [2]"
    using inst [THEN conjunct2, THEN conjunct2, THEN conjunct2] by (simp add: startup_def)
  show ?thesis
    by (intro conjI) (rule h a b c)+
qed

end
